theory Spec2Isabelle
  imports Main
begin

section \<open>Data model (tetromino.ts, board.ts, main.ts)\<close>

text \<open>
  JavaScript numbers are IEEE doubles; the ones this code computes with are integers,
  modelled as \<open>int\<close>. A sum of two such numbers is the double nearest to the exact sum,
  which is the exact sum while its magnitude is at most \<open>2^53\<close>. The positions are added
  exactly here: a position sum that a double would round is far outside the grid, rounded
  or not, and a block only moves to a position inside it. The score is added with
  \<open>jsAdd\<close> below, which rounds as the double does. Values that the static types exclude
  but that the code can produce at run time (\<open>undefined\<close> from an out-of-range array
  read or from a hole left by an out-of-range array write) are constructors of the cell
  types, and a \<open>TypeError\<close> thrown by indexing into \<open>undefined\<close> is a value of type
  \<open>error\<close>.
\<close>

datatype error = TypeError

text \<open>A cell of a shape matrix: \<open>number\<close>, or \<open>undefined\<close>.\<close>

datatype number = Num int | NumUndefined

text \<open>A cell of the board: \<open>null\<close>, a colour string, or \<open>undefined\<close>.\<close>

datatype cell = Null | Color string | Undefined

type_synonym Board = "cell list list"

definition GRID_WIDTH :: int where
  "GRID_WIDTH = 10"

definition GRID_HEIGHT :: int where
  "GRID_HEIGHT = 20"

record Tetromino =
  shape :: "number list list"
  color :: string

record FallingBlock =
  tetromino :: Tetromino
  x :: int
  y :: int

record State =
  board :: Board
  currentBlock :: FallingBlock
  nextTetromino :: Tetromino
  gameOver :: bool
  score :: int

text \<open>
  The six action types of \<open>Action\<close>; \<open>Other\<close> stands for any object whose \<open>type\<close>
  is none of them (the \<open>default\<close> branch of \<open>updateState\<close>).
\<close>

datatype Action = Tick | Left | Right | Down | Rotate | Drop | Other string

text \<open>The keys of \<open>TETROMINOES\<close>, in insertion order.\<close>

datatype key = KeyI | KeyO | KeyT | KeyS | KeyZ | KeyJ | KeyL

subsection \<open>JavaScript number addition\<close>

text \<open>The number of binary digits of a positive integer.\<close>

function bitLength :: "int \<Rightarrow> nat" where
  "bitLength n = (if n \<le> 0 then 0 else Suc (bitLength (n div 2)))"
  by pat_completeness auto
termination
  by (relation "measure nat") auto

declare bitLength.simps [simp del]

text \<open>
  The double nearest to an integer: the integer itself up to magnitude \<open>2^53\<close>; beyond,
  the nearest multiple of \<open>2^e\<close>, where \<open>e\<close> is the number of binary digits in excess of
  53, a tie going to the multiple whose 53-digit significand is even. (From magnitude
  \<open>2^1024 - 2^970\<close> on the double is \<open>Infinity\<close>, which is not modelled; no sum of a
  finite double and a score increment reaches it.)
\<close>

definition roundDouble :: "int \<Rightarrow> int" where
  "roundDouble n =
     (let a = \<bar>n\<bar> in
      if a \<le> 2 ^ 53 then n
      else
        let e = bitLength a - 53;
            q = a div 2 ^ e;
            r = a mod 2 ^ e;
            up = (2 * r > 2 ^ e \<or> (2 * r = 2 ^ e \<and> odd q))
        in sgn n * ((if up then q + 1 else q) * 2 ^ e))"

text \<open>\<open>a + b\<close> on numbers that hold integers.\<close>

definition jsAdd :: "int \<Rightarrow> int \<Rightarrow> int" where
  "jsAdd a b = roundDouble (a + b)"

subsection \<open>JavaScript array access\<close>

text \<open>\<open>xs[i]\<close>: \<open>None\<close> is \<open>undefined\<close> (no such index).\<close>

definition jsIndex :: "'a list \<Rightarrow> int \<Rightarrow> 'a option" where
  "jsIndex xs i = (if 0 \<le> i \<and> nat i < length xs then Some (xs ! nat i) else None)"

text \<open>The truthiness of \<open>shape[row][col]\<close>: a non-zero number.\<close>

fun truthy :: "number \<Rightarrow> bool" where
  "truthy (Num n) = (n \<noteq> 0)"
| "truthy NumUndefined = False"

text \<open>
  \<open>board[boardY][boardX]\<close>: indexing into a missing row throws; a missing column
  reads \<open>undefined\<close>.
\<close>

definition boardGet :: "Board \<Rightarrow> int \<Rightarrow> int \<Rightarrow> error + cell" where
  "boardGet b boardY boardX =
     (case jsIndex b boardY of
        None \<Rightarrow> Inl TypeError
      | Some r \<Rightarrow> Inr (case jsIndex r boardX of None \<Rightarrow> Undefined | Some c \<Rightarrow> c))"

text \<open>
  \<open>row[i] = v\<close> for \<open>i \<ge> 0\<close>: past the end the array grows, the gap reading
  \<open>undefined\<close>.
\<close>

definition jsStore :: "cell list \<Rightarrow> nat \<Rightarrow> cell \<Rightarrow> cell list" where
  "jsStore r i v =
     (if i < length r then r[i := v] else r @ replicate (i - length r) Undefined @ [v])"

text \<open>
  \<open>newBoard[boardY][boardX] = v\<close>, called with non-negative indices only: a missing
  row throws.
\<close>

definition boardSet :: "Board \<Rightarrow> int \<Rightarrow> int \<Rightarrow> cell \<Rightarrow> error + Board" where
  "boardSet b boardY boardX v =
     (case jsIndex b boardY of
        None \<Rightarrow> Inl TypeError
      | Some r \<Rightarrow> Inr (b[nat boardY := jsStore r (nat boardX) v]))"

section \<open>Tetromino catalog (tetromino.ts)\<close>

definition deepCopy :: "number list list \<Rightarrow> number list list" where
  "deepCopy matrix = map (\<lambda>r. map (\<lambda>c. c) r) matrix"

fun TETROMINOES :: "key \<Rightarrow> Tetromino" where
  "TETROMINOES KeyI = \<lparr>shape =
      [[Num 0, Num 0, Num 0, Num 0],
       [Num 1, Num 1, Num 1, Num 1],
       [Num 0, Num 0, Num 0, Num 0],
       [Num 0, Num 0, Num 0, Num 0]], color = ''cyan''\<rparr>"
| "TETROMINOES KeyO = \<lparr>shape =
      [[Num 1, Num 1],
       [Num 1, Num 1]], color = ''yellow''\<rparr>"
| "TETROMINOES KeyT = \<lparr>shape =
      [[Num 0, Num 1, Num 0],
       [Num 1, Num 1, Num 1],
       [Num 0, Num 0, Num 0]], color = ''purple''\<rparr>"
| "TETROMINOES KeyS = \<lparr>shape =
      [[Num 0, Num 1, Num 1],
       [Num 1, Num 1, Num 0],
       [Num 0, Num 0, Num 0]], color = ''green''\<rparr>"
| "TETROMINOES KeyZ = \<lparr>shape =
      [[Num 1, Num 1, Num 0],
       [Num 0, Num 1, Num 1],
       [Num 0, Num 0, Num 0]], color = ''red''\<rparr>"
| "TETROMINOES KeyJ = \<lparr>shape =
      [[Num 1, Num 0, Num 0],
       [Num 1, Num 1, Num 1],
       [Num 0, Num 0, Num 0]], color = ''blue''\<rparr>"
| "TETROMINOES KeyL = \<lparr>shape =
      [[Num 0, Num 0, Num 1],
       [Num 1, Num 1, Num 1],
       [Num 0, Num 0, Num 0]], color = ''orange''\<rparr>"

text \<open>
  \<open>randomTetromino()\<close>: the key drawn, \<open>keys[Math.floor(Math.random() * keys.length)]\<close>,
  is the argument.
\<close>

definition randomTetromino :: "key \<Rightarrow> Tetromino" where
  "randomTetromino randKey =
     \<lparr>shape = deepCopy (shape (TETROMINOES randKey)), color = color (TETROMINOES randKey)\<rparr>"

text \<open>
  \<open>rotate(matrix)\<close>, here \<open>rotate_matrix\<close> (\<open>rotate\<close> is a function on lists in HOL).
  \<open>matrix[0].length\<close> throws on a matrix without rows. The writes
  \<open>rotated[j][n - 1 - i]\<close> stay inside the \<open>m \<times> n\<close> array just built; the read
  \<open>matrix[i][j]\<close> is \<open>undefined\<close> past the end of row \<open>i\<close>.
\<close>

definition matrixGet :: "number list list \<Rightarrow> nat \<Rightarrow> nat \<Rightarrow> number" where
  "matrixGet matrix i j =
     (case jsIndex (matrix ! i) (int j) of None \<Rightarrow> NumUndefined | Some c \<Rightarrow> c)"

definition rotate_matrix :: "number list list \<Rightarrow> error + number list list" where
  "rotate_matrix matrix =
     (case matrix of
        [] \<Rightarrow> Inl TypeError
      | row0 # _ \<Rightarrow>
          let n = length matrix;
              m = length row0;
              rotated = replicate m (replicate n (Num 0))
          in Inr (fold (\<lambda>i. fold (\<lambda>j rot. rot[j := (rot ! j)[n - 1 - i := matrixGet matrix i j]])
                                 [0..<m])
                       [0..<n] rotated))"

section \<open>Board model (board.ts)\<close>

definition createEmptyBoard :: Board where
  "createEmptyBoard = replicate (nat GRID_HEIGHT) (replicate (nat GRID_WIDTH) Null)"

text \<open>
  The inner loop of \<open>canPlaceTetromino\<close> over the cells of one shape row that are left,
  \<open>col\<close> being the index of the first of them. \<open>Inr False\<close> is the early
  \<open>return false\<close>, \<open>Inr True\<close> the loop running to its end.
\<close>

fun canPlaceRow :: "Board \<Rightarrow> int \<Rightarrow> int \<Rightarrow> nat \<Rightarrow> number list \<Rightarrow> error + bool" where
  "canPlaceRow b posX boardY col [] = Inr True"
| "canPlaceRow b posX boardY col (c # cs) =
     (if truthy c then
        (let boardX = posX + int col in
         if boardX < 0 \<or> boardX \<ge> GRID_WIDTH \<or> boardY < 0 \<or> boardY \<ge> GRID_HEIGHT
         then Inr False
         else (case boardGet b boardY boardX of
                 Inl e \<Rightarrow> Inl e
               | Inr v \<Rightarrow> if v \<noteq> Null then Inr False
                          else canPlaceRow b posX boardY (Suc col) cs))
      else canPlaceRow b posX boardY (Suc col) cs)"

text \<open>The outer loop, over the shape rows that are left, \<open>row\<close> the index of the first.\<close>

fun canPlaceRows :: "Board \<Rightarrow> int \<Rightarrow> int \<Rightarrow> nat \<Rightarrow> number list list \<Rightarrow> error + bool" where
  "canPlaceRows b posX posY row [] = Inr True"
| "canPlaceRows b posX posY row (r # rs) =
     (case canPlaceRow b posX (posY + int row) 0 r of
        Inr True \<Rightarrow> canPlaceRows b posX posY (Suc row) rs
      | res \<Rightarrow> res)"

definition canPlaceTetromino :: "Board \<Rightarrow> Tetromino \<Rightarrow> int \<Rightarrow> int \<Rightarrow> error + bool" where
  "canPlaceTetromino b t posX posY = canPlaceRows b posX posY 0 (shape t)"

text \<open>
  \<open>mergeTetromino\<close>: the same two loops, threading the copy \<open>newBoard\<close> of the board.
\<close>

fun mergeRow :: "string \<Rightarrow> int \<Rightarrow> int \<Rightarrow> nat \<Rightarrow> number list \<Rightarrow> Board \<Rightarrow> error + Board" where
  "mergeRow clr bx boardY col [] newBoard = Inr newBoard"
| "mergeRow clr bx boardY col (c # cs) newBoard =
     (if truthy c then
        (let boardX = bx + int col in
         if boardX \<ge> 0 \<and> boardX < GRID_WIDTH \<and> boardY \<ge> 0 \<and> boardY < GRID_HEIGHT
         then (case boardSet newBoard boardY boardX (Color clr) of
                 Inl e \<Rightarrow> Inl e
               | Inr newBoard' \<Rightarrow> mergeRow clr bx boardY (Suc col) cs newBoard')
         else mergeRow clr bx boardY (Suc col) cs newBoard)
      else mergeRow clr bx boardY (Suc col) cs newBoard)"

fun mergeRows :: "string \<Rightarrow> int \<Rightarrow> int \<Rightarrow> nat \<Rightarrow> number list list \<Rightarrow> Board \<Rightarrow> error + Board" where
  "mergeRows clr bx by' row [] newBoard = Inr newBoard"
| "mergeRows clr bx by' row (r # rs) newBoard =
     (case mergeRow clr bx (by' + int row) 0 r newBoard of
        Inl e \<Rightarrow> Inl e
      | Inr newBoard' \<Rightarrow> mergeRows clr bx by' (Suc row) rs newBoard')"

definition mergeTetromino :: "Board \<Rightarrow> FallingBlock \<Rightarrow> error + Board" where
  "mergeTetromino b blk =
     (let newBoard = map (\<lambda>r. map (\<lambda>c. c) r) b
      in mergeRows (color (tetromino blk)) (x blk) (y blk) 0 (shape (tetromino blk)) newBoard)"

section \<open>Game reducer (main.ts)\<close>

text \<open>
  \<open>spawnNewBlock\<close>: \<open>tetromino.shape[0].length\<close> throws on a shape without rows;
  \<open>Math.floor\<close> of the half is \<open>div\<close> on integers, which rounds down.
\<close>

definition spawnNewBlock :: "Board \<Rightarrow> Tetromino \<Rightarrow> error + FallingBlock" where
  "spawnNewBlock b t =
     (case shape t of
        [] \<Rightarrow> Inl TypeError
      | row0 # _ \<Rightarrow>
          let tetrominoWidth = int (length row0);
              sx = (GRID_WIDTH - tetrominoWidth) div 2
          in Inr \<lparr>tetromino = t, x = sx, y = 0\<rparr>)"

text \<open>
  \<open>initialState\<close>, with the keys the two calls of \<open>randomTetromino\<close> draw, in the
  order of the object literal.
\<close>

definition initialState :: "key \<Rightarrow> key \<Rightarrow> error + State" where
  "initialState k1 k2 =
     (case spawnNewBlock createEmptyBoard (randomTetromino k1) of
        Inl e \<Rightarrow> Inl e
      | Inr blk \<Rightarrow>
          Inr \<lparr>board = createEmptyBoard, currentBlock = blk,
               nextTetromino = randomTetromino k2, gameOver = False, score = 0\<rparr>)"

text \<open>
  \<open>clearRows\<close>: \<open>Array.from({ length: rowsCleared }, ...)\<close> is empty for a negative
  length.
\<close>

definition clearRows :: "Board \<Rightarrow> Board \<times> int" where
  "clearRows b =
     (let remainingRows = filter (\<lambda>r. list_ex (\<lambda>c. c = Null) r) b;
          rowsCleared = GRID_HEIGHT - int (length remainingRows);
          newRows = replicate (nat rowsCleared) (replicate (nat GRID_WIDTH) Null)
      in (newRows @ remainingRows, rowsCleared))"

text \<open>
  The \<open>while\<close> loop of the \<open>drop\<close> case, returning the final \<open>dropY\<close>. It need not
  terminate (a shape without occupied cells fits everywhere): \<open>None\<close> is the loop
  running forever.
\<close>

partial_function (option) dropLoop ::
  "Board \<Rightarrow> Tetromino \<Rightarrow> int \<Rightarrow> int \<Rightarrow> (error + int) option" where
  "dropLoop b t bx dropY =
     (case canPlaceTetromino b t bx (dropY + 1) of
        Inl e \<Rightarrow> Some (Inl e)
      | Inr ok \<Rightarrow> if ok then dropLoop b t bx (dropY + 1) else Some (Inr dropY))"

declare dropLoop.simps [code]

text \<open>
  The lock sequence, which the source writes out twice with the same text: in the
  \<open>else\<close> branch of \<open>tick\<close>/\<open>down\<close> for \<open>currentBlock\<close>, and in \<open>drop\<close> for
  \<open>droppedBlock\<close>. \<open>randKey\<close> is the key that the call of \<open>randomTetromino\<close> draws.
\<close>

definition lockBlock :: "key \<Rightarrow> State \<Rightarrow> FallingBlock \<Rightarrow> error + State" where
  "lockBlock randKey state blk =
     (case mergeTetromino (board state) blk of
        Inl e \<Rightarrow> Inl e
      | Inr newBoard \<Rightarrow>
          (case clearRows newBoard of
             (clearedBoard, rowsCleared) \<Rightarrow>
               let scoreIncrement = rowsCleared * 100 in
               (case spawnNewBlock clearedBoard (nextTetromino state) of
                  Inl e \<Rightarrow> Inl e
                | Inr newBlock \<Rightarrow>
                    let nextT = randomTetromino randKey in
                    (case canPlaceTetromino clearedBoard (tetromino newBlock)
                            (x newBlock) (y newBlock) of
                       Inl e \<Rightarrow> Inl e
                     | Inr ok \<Rightarrow>
                         if \<not> ok then
                           Inr \<lparr>board = clearedBoard, currentBlock = newBlock,
                                nextTetromino = nextT, gameOver = True,
                                score = jsAdd (score state) scoreIncrement\<rparr>
                         else
                           Inr \<lparr>board = clearedBoard, currentBlock = newBlock,
                                nextTetromino = nextT, gameOver = False,
                                score = jsAdd (score state) scoreIncrement\<rparr>))))"

text \<open>The shared body of \<open>case "tick": case "down":\<close>.\<close>

definition tickOrDown :: "key \<Rightarrow> State \<Rightarrow> error + State" where
  "tickOrDown randKey state =
     (let cb = currentBlock state in
      case canPlaceTetromino (board state) (tetromino cb) (x cb) (y cb + 1) of
        Inl e \<Rightarrow> Inl e
      | Inr ok \<Rightarrow>
          if ok then Inr (state\<lparr>currentBlock := cb\<lparr>y := y cb + 1\<rparr>\<rparr>)
          else lockBlock randKey state cb)"

text \<open>
  \<open>updateState\<close>. \<open>None\<close>: the call does not return; \<open>Some (Inl e)\<close>: it throws;
  \<open>Some (Inr s)\<close>: it returns \<open>s\<close>.
\<close>

definition updateState :: "key \<Rightarrow> State \<Rightarrow> Action \<Rightarrow> (error + State) option" where
  "updateState randKey state action =
     (if gameOver state then Some (Inr state)
      else
        let b = board state; cb = currentBlock state in
        case action of
          Tick \<Rightarrow> Some (tickOrDown randKey state)
        | Down \<Rightarrow> Some (tickOrDown randKey state)
        | Left \<Rightarrow>
            Some (case canPlaceTetromino b (tetromino cb) (x cb - 1) (y cb) of
                    Inl e \<Rightarrow> Inl e
                  | Inr ok \<Rightarrow>
                      if ok then Inr (state\<lparr>currentBlock := cb\<lparr>x := x cb - 1\<rparr>\<rparr>)
                      else Inr state)
        | Right \<Rightarrow>
            Some (case canPlaceTetromino b (tetromino cb) (x cb + 1) (y cb) of
                    Inl e \<Rightarrow> Inl e
                  | Inr ok \<Rightarrow>
                      if ok then Inr (state\<lparr>currentBlock := cb\<lparr>x := x cb + 1\<rparr>\<rparr>)
                      else Inr state)
        | Rotate \<Rightarrow>
            Some (case rotate_matrix (shape (tetromino cb)) of
                    Inl e \<Rightarrow> Inl e
                  | Inr rotatedShape \<Rightarrow>
                      let rotatedTetromino = (tetromino cb)\<lparr>shape := rotatedShape\<rparr> in
                      (case canPlaceTetromino b rotatedTetromino (x cb) (y cb) of
                         Inl e \<Rightarrow> Inl e
                       | Inr ok \<Rightarrow>
                           if ok
                           then Inr (state\<lparr>currentBlock := cb\<lparr>tetromino := rotatedTetromino\<rparr>\<rparr>)
                           else Inr state))
        | Drop \<Rightarrow>
            (case dropLoop b (tetromino cb) (x cb) (y cb) of
               None \<Rightarrow> None
             | Some (Inl e) \<Rightarrow> Some (Inl e)
             | Some (Inr dropY) \<Rightarrow>
                 let droppedBlock = cb\<lparr>y := dropY\<rparr> in
                 Some (lockBlock randKey state droppedBlock))
        | Other _ \<Rightarrow> Some (Inr state))"

text \<open>
  The fold of \<open>updateState\<close> over a sequence of actions (\<open>scan\<close> in \<open>main\<close>), each
  with the key its call of \<open>randomTetromino\<close> would draw; it stops where a call throws
  or does not return.
\<close>

fun run :: "(key \<times> Action) list \<Rightarrow> State \<Rightarrow> (error + State) option" where
  "run [] state = Some (Inr state)"
| "run ((randKey, action) # rest) state =
     (case updateState randKey state action of
        None \<Rightarrow> None
      | Some (Inl e) \<Rightarrow> Some (Inl e)
      | Some (Inr state') \<Rightarrow> run rest state')"

section \<open>The store: where \<open>mergeTetromino\<close> and \<open>rotate\<close> write\<close>

text \<open>
  The two functions that assign to array elements, modelled once more on a store of
  objects, so that what they leave untouched can be stated. An object is an array of
  cells (a board row), an array of numbers (a shape row) or an array of references to
  rows (a board, a matrix); a reference is an index into the store, and a new object is
  appended to it. The definitions above give the values these functions compute; the
  theorems relate the two.
\<close>

datatype obj = CellRow "cell list" | NumRow "number list" | RefArray "nat list"

type_synonym heap = "obj list"

definition alloc :: "heap \<Rightarrow> obj \<Rightarrow> heap \<times> nat" where
  "alloc h ob = (h @ [ob], length h)"

text \<open>Reading an object of the expected kind; \<open>None\<close> where there is none.\<close>

definition heapCells :: "heap \<Rightarrow> nat \<Rightarrow> cell list option" where
  "heapCells h a =
     (if a < length h then (case h ! a of CellRow cs \<Rightarrow> Some cs | _ \<Rightarrow> None) else None)"

definition heapRefs :: "heap \<Rightarrow> nat \<Rightarrow> nat list option" where
  "heapRefs h a =
     (if a < length h then (case h ! a of RefArray refs \<Rightarrow> Some refs | _ \<Rightarrow> None)
      else None)"

text \<open>The board, and the matrix, that a reference stands for in a store.\<close>

definition boardOf :: "heap \<Rightarrow> nat \<Rightarrow> Board option" where
  "boardOf h ref =
     (case heapRefs h ref of None \<Rightarrow> None | Some refs \<Rightarrow> those (map (heapCells h) refs))"

text \<open>\<open>board.map(row => [...row])\<close>: a new row object for each row of the board.\<close>

fun copyRows :: "heap \<Rightarrow> nat list \<Rightarrow> error + heap \<times> nat list" where
  "copyRows h [] = Inr (h, [])"
| "copyRows h (r # rs) =
     (case heapCells h r of
        None \<Rightarrow> Inl TypeError
      | Some cs \<Rightarrow>
          (case alloc h (CellRow (map (\<lambda>c. c) cs)) of
             (h1, a) \<Rightarrow>
               (case copyRows h1 rs of
                  Inl e \<Rightarrow> Inl e
                | Inr (h2, as) \<Rightarrow> Inr (h2, a # as))))"

text \<open>\<open>newBoard[boardY][boardX] = v\<close> in the store.\<close>

definition boardSetH :: "heap \<Rightarrow> nat \<Rightarrow> int \<Rightarrow> int \<Rightarrow> cell \<Rightarrow> error + heap" where
  "boardSetH h newBoard boardY boardX v =
     (case heapRefs h newBoard of
        None \<Rightarrow> Inl TypeError
      | Some refs \<Rightarrow>
          (case jsIndex refs boardY of
             None \<Rightarrow> Inl TypeError
           | Some a \<Rightarrow>
               (case heapCells h a of
                  None \<Rightarrow> Inl TypeError
                | Some r \<Rightarrow> Inr (h[a := CellRow (jsStore r (nat boardX) v)]))))"

fun mergeRowH :: "string \<Rightarrow> int \<Rightarrow> int \<Rightarrow> nat \<Rightarrow> number list \<Rightarrow> nat \<Rightarrow> heap \<Rightarrow> error + heap" where
  "mergeRowH clr bx boardY col [] newBoard h = Inr h"
| "mergeRowH clr bx boardY col (c # cs) newBoard h =
     (if truthy c then
        (let boardX = bx + int col in
         if boardX \<ge> 0 \<and> boardX < GRID_WIDTH \<and> boardY \<ge> 0 \<and> boardY < GRID_HEIGHT
         then (case boardSetH h newBoard boardY boardX (Color clr) of
                 Inl e \<Rightarrow> Inl e
               | Inr h' \<Rightarrow> mergeRowH clr bx boardY (Suc col) cs newBoard h')
         else mergeRowH clr bx boardY (Suc col) cs newBoard h)
      else mergeRowH clr bx boardY (Suc col) cs newBoard h)"

fun mergeRowsH :: "string \<Rightarrow> int \<Rightarrow> int \<Rightarrow> nat \<Rightarrow> number list list \<Rightarrow> nat \<Rightarrow> heap \<Rightarrow> error + heap" where
  "mergeRowsH clr bx by' row [] newBoard h = Inr h"
| "mergeRowsH clr bx by' row (r # rs) newBoard h =
     (case mergeRowH clr bx (by' + int row) 0 r newBoard h of
        Inl e \<Rightarrow> Inl e
      | Inr h' \<Rightarrow> mergeRowsH clr bx by' (Suc row) rs newBoard h')"

definition mergeTetrominoH :: "heap \<Rightarrow> nat \<Rightarrow> FallingBlock \<Rightarrow> error + heap \<times> nat" where
  "mergeTetrominoH h boardRef blk =
     (case heapRefs h boardRef of
        None \<Rightarrow> Inl TypeError
      | Some refs \<Rightarrow>
          (case copyRows h refs of
             Inl e \<Rightarrow> Inl e
           | Inr (h1, newRefs) \<Rightarrow>
               (case alloc h1 (RefArray newRefs) of
                  (h2, newBoard) \<Rightarrow>
                    (case mergeRowsH (color (tetromino blk)) (x blk) (y blk) 0
                            (shape (tetromino blk)) newBoard h2 of
                       Inl e \<Rightarrow> Inl e
                     | Inr h3 \<Rightarrow> Inr (h3, newBoard)))))"

definition heapNums :: "heap \<Rightarrow> nat \<Rightarrow> number list option" where
  "heapNums h a =
     (if a < length h then (case h ! a of NumRow ns \<Rightarrow> Some ns | _ \<Rightarrow> None) else None)"

definition matrixOf :: "heap \<Rightarrow> nat \<Rightarrow> number list list option" where
  "matrixOf h ref =
     (case heapRefs h ref of None \<Rightarrow> None | Some refs \<Rightarrow> those (map (heapNums h) refs))"

text \<open>The \<open>m\<close> rows \<open>new Array(n).fill(0)\<close> that \<open>Array.from\<close> creates.\<close>

fun allocRows :: "heap \<Rightarrow> nat \<Rightarrow> nat \<Rightarrow> heap \<times> nat list" where
  "allocRows h 0 n = (h, [])"
| "allocRows h (Suc m) n =
     (case alloc h (NumRow (replicate n (Num 0))) of
        (h1, a) \<Rightarrow> (case allocRows h1 m n of (h2, as) \<Rightarrow> (h2, a # as)))"

text \<open>
  \<open>matrix[i][j]\<close> and \<open>rotated[j][c] = v\<close> in the store; as above, the write is called
  with \<open>c = n - 1 - i\<close> inside the row of length \<open>n\<close>.
\<close>

definition matrixGetH :: "heap \<Rightarrow> nat \<Rightarrow> nat \<Rightarrow> nat \<Rightarrow> error + number" where
  "matrixGetH h matrixRef i j =
     (case heapRefs h matrixRef of
        None \<Rightarrow> Inl TypeError
      | Some refs \<Rightarrow>
          (case jsIndex refs (int i) of
             None \<Rightarrow> Inl TypeError
           | Some a \<Rightarrow>
               (case heapNums h a of
                  None \<Rightarrow> Inl TypeError
                | Some r \<Rightarrow>
                    Inr (case jsIndex r (int j) of None \<Rightarrow> NumUndefined | Some c \<Rightarrow> c))))"

definition rotatedSetH :: "heap \<Rightarrow> nat \<Rightarrow> nat \<Rightarrow> nat \<Rightarrow> number \<Rightarrow> error + heap" where
  "rotatedSetH h rotated j c v =
     (case heapRefs h rotated of
        None \<Rightarrow> Inl TypeError
      | Some refs \<Rightarrow>
          (case jsIndex refs (int j) of
             None \<Rightarrow> Inl TypeError
           | Some a \<Rightarrow>
               (case heapNums h a of
                  None \<Rightarrow> Inl TypeError
                | Some r \<Rightarrow> Inr (h[a := NumRow (r[c := v])]))))"

fun rotateInnerH :: "heap \<Rightarrow> nat \<Rightarrow> nat \<Rightarrow> nat \<Rightarrow> nat \<Rightarrow> nat list \<Rightarrow> error + heap" where
  "rotateInnerH h matrixRef rotated n i [] = Inr h"
| "rotateInnerH h matrixRef rotated n i (j # js) =
     (case matrixGetH h matrixRef i j of
        Inl e \<Rightarrow> Inl e
      | Inr v \<Rightarrow>
          (case rotatedSetH h rotated j (n - 1 - i) v of
             Inl e \<Rightarrow> Inl e
           | Inr h' \<Rightarrow> rotateInnerH h' matrixRef rotated n i js))"

fun rotateOuterH :: "heap \<Rightarrow> nat \<Rightarrow> nat \<Rightarrow> nat \<Rightarrow> nat \<Rightarrow> nat list \<Rightarrow> error + heap" where
  "rotateOuterH h matrixRef rotated n m [] = Inr h"
| "rotateOuterH h matrixRef rotated n m (i # is) =
     (case rotateInnerH h matrixRef rotated n i [0..<m] of
        Inl e \<Rightarrow> Inl e
      | Inr h' \<Rightarrow> rotateOuterH h' matrixRef rotated n m is)"

definition rotateH :: "heap \<Rightarrow> nat \<Rightarrow> error + heap \<times> nat" where
  "rotateH h matrixRef =
     (case heapRefs h matrixRef of
        None \<Rightarrow> Inl TypeError
      | Some refs \<Rightarrow>
          (case refs of
             [] \<Rightarrow> Inl TypeError
           | a0 # _ \<Rightarrow>
               (case heapNums h a0 of
                  None \<Rightarrow> Inl TypeError
                | Some row0 \<Rightarrow>
                    let n = length refs; m = length row0 in
                    (case allocRows h m n of
                       (h1, rowRefs) \<Rightarrow>
                         (case alloc h1 (RefArray rowRefs) of
                            (h2, rotated) \<Rightarrow>
                              (case rotateOuterH h2 matrixRef rotated n m [0..<n] of
                                 Inl e \<Rightarrow> Inl e
                               | Inr h3 \<Rightarrow> Inr (h3, rotated)))))))"

section \<open>Predicates of the specification\<close>

text \<open>
  The board of the data model: \<open>GRID_HEIGHT\<close> rows of \<open>GRID_WIDTH\<close> cells each.
\<close>

definition wfBoard :: "Board \<Rightarrow> bool" where
  "wfBoard b \<longleftrightarrow>
     int (length b) = GRID_HEIGHT \<and> (\<forall>r \<in> set b. int (length r) = GRID_WIDTH)"

text \<open>The coordinate \<open>(c, r)\<close> (column, row) is inside the grid.\<close>

definition inGrid :: "int \<Rightarrow> int \<Rightarrow> bool" where
  "inGrid c r \<longleftrightarrow> 0 \<le> c \<and> c < GRID_WIDTH \<and> 0 \<le> r \<and> r < GRID_HEIGHT"

text \<open>The coordinate \<open>(bx, by')\<close> is inside the grid and the board is empty there.\<close>

definition cellFree :: "Board \<Rightarrow> int \<Rightarrow> int \<Rightarrow> bool" where
  "cellFree b bx by' \<longleftrightarrow>
     0 \<le> bx \<and> bx < GRID_WIDTH \<and> 0 \<le> by' \<and> by' < GRID_HEIGHT \<and> b ! nat by' ! nat bx = Null"

text \<open>A row with no empty cell.\<close>

definition fullRow :: "cell list \<Rightarrow> bool" where
  "fullRow r \<longleftrightarrow> (\<forall>c \<in> set r. c \<noteq> Null)"

text \<open>\<open>rotate\<close> applied \<open>k\<close> times in a row; a throw ends the chain.\<close>

fun rotateTimes :: "nat \<Rightarrow> number list list \<Rightarrow> error + number list list" where
  "rotateTimes 0 matrix = Inr matrix"
| "rotateTimes (Suc k) matrix =
     (case rotate_matrix matrix of Inl e \<Rightarrow> Inl e | Inr r \<Rightarrow> rotateTimes k r)"

text \<open>
  The shape of a piece in play: a matrix with at least one row, all rows of one length,
  and an occupied cell.
\<close>

definition wfShape :: "number list list \<Rightarrow> bool" where
  "wfShape m \<longleftrightarrow>
     m \<noteq> [] \<and> (\<forall>r \<in> set m. length r = length (hd m)) \<and> (\<exists>r \<in> set m. \<exists>c \<in> set r. truthy c)"

text \<open>
  The invariant of the game: a board of the data model, pieces with shapes as above, and,
  while the game is not over, an active block that is validly placed.
\<close>

definition stateInv :: "State \<Rightarrow> bool" where
  "stateInv s \<longleftrightarrow>
     wfBoard (board s) \<and>
     wfShape (shape (tetromino (currentBlock s))) \<and>
     wfShape (shape (nextTetromino s)) \<and>
     (\<not> gameOver s \<longrightarrow>
        canPlaceTetromino (board s) (tetromino (currentBlock s))
          (x (currentBlock s)) (y (currentBlock s)) = Inr True)"

text \<open>
  The store after a call of \<open>mergeTetromino\<close> (of \<open>rotate\<close>): the store before it, then
  the rows of the new board (of the new matrix), then the array of the references to them.
\<close>

definition repHeap :: "heap \<Rightarrow> Board \<Rightarrow> heap" where
  "repHeap h0 nb = h0 @ map CellRow nb @ [RefArray [length h0 ..< length h0 + length nb]]"

definition repHeapN :: "heap \<Rightarrow> number list list \<Rightarrow> heap" where
  "repHeapN h0 rot = h0 @ map NumRow rot @ [RefArray [length h0 ..< length h0 + length rot]]"

subsection \<open>States and boards of the scenarios\<close>

text \<open>A state of a running game on the empty board.\<close>

definition emptyBoardState :: "FallingBlock \<Rightarrow> Tetromino \<Rightarrow> State" where
  "emptyBoardState blk nxt =
     \<lparr>board = createEmptyBoard, currentBlock = blk, nextTetromino = nxt,
      gameOver = False, score = 0\<rparr>"

text \<open>An otherwise empty board whose bottom rows are the given ones.\<close>

definition boardWithBottom :: "cell list list \<Rightarrow> Board" where
  "boardWithBottom rows =
     replicate (nat GRID_HEIGHT - length rows) (replicate (nat GRID_WIDTH) Null) @ rows"

text \<open>
  A state in play whose \<open>O\<close> piece rests in the gap of the two bottom rows, which are full
  but for that gap, under a row with one landed cell; \<open>sc\<close> is the score.
\<close>

definition landedState :: "int \<Rightarrow> State" where
  "landedState sc =
     \<lparr>board = boardWithBottom
        [[Color ''blue'', Null, Null, Null, Null, Null, Null, Null, Null, Null],
         [Color ''red'', Color ''red'', Color ''red'', Color ''red'', Null, Null,
          Color ''red'', Color ''red'', Color ''red'', Color ''red''],
         [Color ''red'', Color ''red'', Color ''red'', Color ''red'', Null, Null,
          Color ''red'', Color ''red'', Color ''red'', Color ''red'']],
      currentBlock = \<lparr>tetromino = randomTetromino KeyO, x = 4, y = 18\<rparr>,
      nextTetromino = randomTetromino KeyT, gameOver = False, score = sc\<rparr>"

text \<open>
  A state in play whose \<open>O\<close> piece, just spawned, rests on a landed cell in row 2.
\<close>

definition blockedState :: State where
  "blockedState =
     \<lparr>board = replicate 2 (replicate 10 Null) @
        [[Null, Null, Null, Null, Color ''red'', Null, Null, Null, Null, Null]] @
        replicate 17 (replicate 10 Null),
      currentBlock = \<lparr>tetromino = randomTetromino KeyO, x = 4, y = 0\<rparr>,
      nextTetromino = randomTetromino KeyT, gameOver = False, score = 300\<rparr>"

text \<open>
  Scenario A: the empty board with an \<open>O\<close> piece just spawned; scenario D: the same with
  a \<open>T\<close> piece. \<open>k2\<close> is the key of the queued piece.
\<close>

definition scenarioA :: "key \<Rightarrow> State" where
  "scenarioA k2 =
     emptyBoardState \<lparr>tetromino = randomTetromino KeyO, x = 4, y = 0\<rparr> (randomTetromino k2)"

definition scenarioD :: "key \<Rightarrow> State" where
  "scenarioD k2 =
     emptyBoardState \<lparr>tetromino = randomTetromino KeyT, x = 3, y = 0\<rparr> (randomTetromino k2)"

section \<open>Placement test\<close>

lemma boardGet_wf:
  assumes "wfBoard b" "0 \<le> bx" "bx < GRID_WIDTH" "0 \<le> by'" "by' < GRID_HEIGHT"
  shows "boardGet b by' bx = Inr (b ! nat by' ! nat bx)"
proof -
  from assms have r: "nat by' < length b" unfolding wfBoard_def by linarith
  then have "b ! nat by' \<in> set b" by simp
  with assms have "int (length (b ! nat by')) = GRID_WIDTH" by (simp add: wfBoard_def)
  with assms have "nat bx < length (b ! nat by')" by linarith
  with r assms show ?thesis by (simp add: boardGet_def jsIndex_def)
qed

lemma canPlaceRow_wf:
  assumes "wfBoard b"
  shows "canPlaceRow b posX boardY col cs =
           Inr (\<forall>j<length cs. truthy (cs ! j) \<longrightarrow> cellFree b (posX + int (col + j)) boardY)"
proof (induction cs arbitrary: col)
  case Nil
  show ?case by simp
next
  case (Cons c cs)
  show ?case
  proof (cases "truthy c")
    case False
    then show ?thesis using Cons.IH [of "Suc col"]
      by (simp add: All_less_Suc2 add.assoc add.left_commute)
  next
    case True
    show ?thesis
    proof (cases "cellFree b (posX + int col) boardY")
      case free: True
      then have "boardGet b boardY (posX + int col) = Inr Null"
        using boardGet_wf [OF assms, of "posX + int col" boardY] by (simp add: cellFree_def)
      with True free show ?thesis using Cons.IH [of "Suc col"]
        by (simp add: cellFree_def All_less_Suc2 add.assoc add.left_commute)
    next
      case blocked: False
      show ?thesis
      proof (cases "posX + int col < 0 \<or> posX + int col \<ge> GRID_WIDTH \<or>
                    boardY < 0 \<or> boardY \<ge> GRID_HEIGHT")
        case True
        with \<open>truthy c\<close> blocked show ?thesis by (auto simp: cellFree_def)
      next
        case False
        then have "boardGet b boardY (posX + int col) =
                     Inr (b ! nat boardY ! nat (posX + int col))"
          using boardGet_wf [OF assms, of "posX + int col" boardY] by simp
        with False \<open>truthy c\<close> blocked show ?thesis by (auto simp: cellFree_def)
      qed
    qed
  qed
qed

lemma canPlaceRows_wf:
  assumes "wfBoard b"
  shows "canPlaceRows b posX posY row rs =
           Inr (\<forall>i<length rs. \<forall>j<length (rs ! i).
                  truthy (rs ! i ! j) \<longrightarrow> cellFree b (posX + int j) (posY + int (row + i)))"
proof (induction rs arbitrary: row)
  case Nil
  show ?case by simp
next
  case (Cons r rs)
  show ?case
    using Cons.IH [of "Suc row"]
    by (simp add: canPlaceRow_wf [OF assms] All_less_Suc2 add.assoc add.left_commute
          split: bool.splits)
qed

lemma canPlaceTetromino_wf:
  assumes "wfBoard b"
  shows "canPlaceTetromino b t posX posY =
           Inr (\<forall>i<length (shape t). \<forall>j<length (shape t ! i).
                  truthy (shape t ! i ! j) \<longrightarrow> cellFree b (posX + int j) (posY + int i))"
  by (simp add: canPlaceTetromino_def canPlaceRows_wf [OF assms])

lemma wfBoard_createEmptyBoard: "wfBoard createEmptyBoard"
  by (simp add: wfBoard_def createEmptyBoard_def GRID_HEIGHT_def GRID_WIDTH_def)

text \<open>
  C2. On a board of the data model, for every tetromino and every integer position,
  \<open>canPlaceTetromino\<close> returns (it does not throw), and it returns false exactly when
  some occupied (non-zero) shape cell, mapped to \<open>(posX + col, posY + row)\<close>, falls
  outside the grid or on a board cell that is not empty. Only occupied shape cells are
  quantified over: an empty shape cell constrains nothing, wherever it maps. The function
  is a pure function of its arguments.
\<close>

theorem canPlaceTetromino_false_iff:
  assumes "wfBoard b"
  shows "canPlaceTetromino b t posX posY =
           Inr (\<not> (\<exists>row<length (shape t). \<exists>col<length (shape t ! row).
                  truthy (shape t ! row ! col) \<and>
                  (posX + int col < 0 \<or> posX + int col \<ge> GRID_WIDTH \<or>
                   posY + int row < 0 \<or> posY + int row \<ge> GRID_HEIGHT \<or>
                   b ! nat (posY + int row) ! nat (posX + int col) \<noteq> Null)))"
proof -
  have "cellFree b bx by' \<longleftrightarrow>
          \<not> (bx < 0 \<or> bx \<ge> GRID_WIDTH \<or> by' < 0 \<or> by' \<ge> GRID_HEIGHT \<or>
             b ! nat by' ! nat bx \<noteq> Null)" for bx by'
    by (auto simp: cellFree_def)
  then show ?thesis
    unfolding canPlaceTetromino_wf [OF assms] by blast
qed

theorem canPlaceTetromino_false_iff_witness:
  "wfBoard createEmptyBoard \<and>
   canPlaceTetromino createEmptyBoard (TETROMINOES KeyI) 8 (-1) = Inr False \<and>
   (\<exists>row<length (shape (TETROMINOES KeyI)). \<exists>col<length (shape (TETROMINOES KeyI) ! row).
      truthy (shape (TETROMINOES KeyI) ! row ! col) \<and>
      (8 + int col < 0 \<or> 8 + int col \<ge> GRID_WIDTH \<or>
       - 1 + int row < 0 \<or> - 1 + int row \<ge> GRID_HEIGHT \<or>
       createEmptyBoard ! nat (- 1 + int row) ! nat (8 + int col) \<noteq> Null))"
proof -
  have e: "canPlaceTetromino createEmptyBoard (TETROMINOES KeyI) 8 (-1) = Inr False"
    by code_simp
  have "canPlaceTetromino createEmptyBoard (TETROMINOES KeyI) 8 (-1) =
          Inr (\<not> (\<exists>row<length (shape (TETROMINOES KeyI)).
                    \<exists>col<length (shape (TETROMINOES KeyI) ! row).
                      truthy (shape (TETROMINOES KeyI) ! row ! col) \<and>
                      (8 + int col < 0 \<or> 8 + int col \<ge> GRID_WIDTH \<or>
                       - 1 + int row < 0 \<or> - 1 + int row \<ge> GRID_HEIGHT \<or>
                       createEmptyBoard ! nat (- 1 + int row) ! nat (8 + int col) \<noteq> Null)))"
    (is "_ = Inr (\<not> ?X)")
    by (rule canPlaceTetromino_false_iff [OF wfBoard_createEmptyBoard])
  with e have "(Inr False :: error + bool) = Inr (\<not> ?X)"
    by (simp only:)
  then have "?X"
    by (simp only: sum.inject simp_thms)
  with e wfBoard_createEmptyBoard show ?thesis
    by (intro conjI)
qed

section \<open>Rotation\<close>

lemma rotate_inner:
  assumes "length rot = m" "\<forall>a<m. length (rot ! a) = n" "\<forall>j\<in>set js. j < m" "c < n"
  shows "length (fold (\<lambda>j rot. rot[j := (rot ! j)[c := f j]]) js rot) = m \<and>
         (\<forall>a<m. length (fold (\<lambda>j rot. rot[j := (rot ! j)[c := f j]]) js rot ! a) = n) \<and>
         (\<forall>a<m. \<forall>b<n. fold (\<lambda>j rot. rot[j := (rot ! j)[c := f j]]) js rot ! a ! b =
                          (if a \<in> set js \<and> b = c then f a else rot ! a ! b))"
  using assms(1-3)
proof (induction js arbitrary: rot)
  case Nil
  then show ?case by simp
next
  case (Cons j js)
  let ?rot1 = "rot[j := (rot ! j)[c := f j]]"
  have l: "length ?rot1 = m" using Cons.prems by simp
  have d: "\<forall>a<m. length (?rot1 ! a) = n"
    using Cons.prems by (simp add: nth_list_update)
  have j: "\<forall>j\<in>set js. j < m" using Cons.prems by simp
  have v: "?rot1 ! a ! b = (if a = j \<and> b = c then f j else rot ! a ! b)" if "a < m" "b < n" for a b
    using that Cons.prems assms(4) by (auto simp: nth_list_update)
  from Cons.IH [OF l d j] v show ?case
    by auto
qed

lemma rotate_outer:
  assumes "length rot = m" "\<forall>a<m. length (rot ! a) = n" "\<forall>i\<in>set is. i < n"
  shows "length (fold (\<lambda>i. fold (\<lambda>j rot. rot[j := (rot ! j)[n - 1 - i := g i j]]) [0..<m]) is rot) = m \<and>
         (\<forall>a<m. length (fold (\<lambda>i. fold (\<lambda>j rot. rot[j := (rot ! j)[n - 1 - i := g i j]]) [0..<m]) is rot ! a) = n) \<and>
         (\<forall>a<m. \<forall>b<n. fold (\<lambda>i. fold (\<lambda>j rot. rot[j := (rot ! j)[n - 1 - i := g i j]]) [0..<m]) is rot ! a ! b =
                          (if n - 1 - b \<in> set is then g (n - 1 - b) a else rot ! a ! b))"
  using assms
proof (induction "is" arbitrary: rot)
  case Nil
  then show ?case by simp
next
  case (Cons i "is")
  let ?rot1 = "fold (\<lambda>j rot. rot[j := (rot ! j)[n - 1 - i := g i j]]) [0..<m] rot"
  from Cons.prems have i: "i < n" and c: "n - 1 - i < n" by auto
  have js: "\<forall>j\<in>set [0..<m]. j < m" by simp
  note inner = rotate_inner [OF Cons.prems(1,2) js c, of "g i"]
  from inner have l: "length ?rot1 = m" and d: "\<forall>a<m. length (?rot1 ! a) = n" by blast+
  from inner have v: "?rot1 ! a ! b = (if b = n - 1 - i then g i a else rot ! a ! b)"
    if "a < m" "b < n" for a b using that by simp
  have r: "\<forall>i\<in>set is. i < n" using Cons.prems by simp
  have e: "b = n - 1 - i \<longleftrightarrow> n - 1 - b = i" if "b < n" for b using that i by auto
  from Cons.IH [OF l d r] v e show ?case
    by auto
qed

lemma rotate_matrix_rect:
  assumes "matrix \<noteq> []" "\<forall>r\<in>set matrix. length r = m"
  shows "\<exists>rotated. rotate_matrix matrix = Inr rotated \<and> length rotated = m \<and>
           (\<forall>j<m. length (rotated ! j) = length matrix) \<and>
           (\<forall>i<length matrix. \<forall>j<m.
              rotated ! j ! (length matrix - 1 - i) = matrix ! i ! j)"
proof -
  let ?n = "length matrix"
  let ?rot0 = "replicate m (replicate ?n (Num 0))"
  let ?R = "fold (\<lambda>i. fold (\<lambda>j rot. rot[j := (rot ! j)[?n - 1 - i := matrixGet matrix i j]])
                          [0..<m]) [0..<?n] ?rot0"
  from assms obtain row0 rest where mx: "matrix = row0 # rest" and r0: "length row0 = m"
    by (cases matrix) auto
  then have def: "rotate_matrix matrix = Inr ?R"
    by (simp add: rotate_matrix_def Let_def)
  have "length ?rot0 = m" "\<forall>a<m. length (?rot0 ! a) = ?n" "\<forall>i\<in>set [0..<?n]. i < ?n"
    by simp_all
  note outer = rotate_outer [OF this, of "matrixGet matrix"]
  have g: "matrixGet matrix i j = matrix ! i ! j" if "i < ?n" "j < m" for i j
  proof -
    from that have "matrix ! i \<in> set matrix" by simp
    with assms have "length (matrix ! i) = m" by blast
    with that show ?thesis by (simp add: matrixGet_def jsIndex_def)
  qed
  have "?R ! j ! (?n - 1 - i) = matrix ! i ! j" if "i < ?n" "j < m" for i j
  proof -
    from that have "?n - 1 - i < ?n" "?n - 1 - (?n - 1 - i) = i" by auto
    with outer that g [OF that] show ?thesis by simp
  qed
  with outer def show ?thesis by blast
qed

text \<open>The array without rows is no matrix for \<open>rotate\<close>: \<open>matrix[0].length\<close> throws.\<close>

lemma rotate_matrix_empty: "rotate_matrix [] = Inl TypeError"
  by (simp add: rotate_matrix_def)

lemma rotate4_catalog:
  "rotateTimes 4 (shape (TETROMINOES KeyI)) = Inr (shape (TETROMINOES KeyI))"
  "rotateTimes 4 (shape (TETROMINOES KeyO)) = Inr (shape (TETROMINOES KeyO))"
  "rotateTimes 4 (shape (TETROMINOES KeyT)) = Inr (shape (TETROMINOES KeyT))"
  "rotateTimes 4 (shape (TETROMINOES KeyS)) = Inr (shape (TETROMINOES KeyS))"
  "rotateTimes 4 (shape (TETROMINOES KeyZ)) = Inr (shape (TETROMINOES KeyZ))"
  "rotateTimes 4 (shape (TETROMINOES KeyJ)) = Inr (shape (TETROMINOES KeyJ))"
  "rotateTimes 4 (shape (TETROMINOES KeyL)) = Inr (shape (TETROMINOES KeyL))"
  by code_simp+

lemma those_map_Some:
  "those (map f xs) = Some ys \<longleftrightarrow> list_all2 (\<lambda>x y. f x = Some y) xs ys"
proof (induction xs arbitrary: ys)
  case Nil
  show ?case by auto
next
  case (Cons x xs)
  show ?case
    by (cases "f x") (auto simp: Cons.IH list_all2_Cons1)
qed

lemma heapRefs_append: "heapRefs h a = Some refs \<Longrightarrow> heapRefs (h @ e) a = Some refs"
  by (auto simp: heapRefs_def nth_append split: if_splits)

lemma heapNums_append: "heapNums h a = Some ns \<Longrightarrow> heapNums (h @ e) a = Some ns"
  by (auto simp: heapNums_def nth_append split: if_splits)

lemma matrixOf_append:
  assumes "matrixOf h ref = Some M"
  shows "matrixOf (h @ e) ref = Some M"
proof -
  from assms obtain refs where refs: "heapRefs h ref = Some refs"
    and rows: "list_all2 (\<lambda>r ns. heapNums h r = Some ns) refs M"
    by (auto simp: matrixOf_def those_map_Some split: option.splits)
  from rows have "list_all2 (\<lambda>r ns. heapNums (h @ e) r = Some ns) refs M"
    by (rule list_all2_mono) (rule heapNums_append)
  with heapRefs_append [OF refs, of e] show ?thesis
    by (simp add: matrixOf_def those_map_Some)
qed

lemma allocRows_rep:
  "allocRows h m n =
     (h @ map NumRow (replicate m (replicate n (Num 0))), [length h ..< length h + m])"
proof (induction m arbitrary: h)
  case 0
  show ?case by simp
next
  case (Suc m)
  from Suc.IH [of "h @ [NumRow (replicate n (Num 0))]"] show ?case
    by (simp add: alloc_def upt_conv_Cons del: upt_Suc)
qed

lemma heapRefs_repN:
  "heapRefs (repHeapN h0 rot) (length h0 + length rot) =
     Some [length h0 ..< length h0 + length rot]"
  by (simp add: heapRefs_def repHeapN_def nth_append)

lemma heapNums_repN:
  "j < length rot \<Longrightarrow> heapNums (repHeapN h0 rot) (length h0 + j) = Some (rot ! j)"
  by (simp add: heapNums_def repHeapN_def nth_append)

lemma repHeapN_update:
  "j < length rot \<Longrightarrow>
   (repHeapN h0 rot)[length h0 + j := NumRow r] = repHeapN h0 (rot[j := r])"
  by (simp add: repHeapN_def list_update_append map_update)

lemma matrixOf_repN: "matrixOf (repHeapN h0 rot) (length h0 + length rot) = Some rot"
proof -
  have "list_all2 (\<lambda>a r. heapNums (repHeapN h0 rot) a = Some r)
          [length h0 ..< length h0 + length rot] rot"
    by (simp add: list_all2_conv_all_nth heapNums_repN)
  then show ?thesis
    by (simp add: matrixOf_def heapRefs_repN those_map_Some)
qed

lemma matrixGetH_rep:
  assumes "matrixOf h0 matrixRef = Some M" "i < length M"
  shows "matrixGetH (repHeapN h0 rot) matrixRef i j = Inr (matrixGet M i j)"
proof -
  from assms(1) obtain refs where refs: "heapRefs h0 matrixRef = Some refs"
    and rows: "list_all2 (\<lambda>r ns. heapNums h0 r = Some ns) refs M"
    by (auto simp: matrixOf_def those_map_Some split: option.splits)
  from rows assms(2) have l: "i < length refs" and r: "heapNums h0 (refs ! i) = Some (M ! i)"
    by (simp_all add: list_all2_conv_all_nth)
  from r have "heapNums (repHeapN h0 rot) (refs ! i) = Some (M ! i)"
    unfolding repHeapN_def by (rule heapNums_append)
  moreover have "heapRefs (repHeapN h0 rot) matrixRef = Some refs"
    unfolding repHeapN_def using refs by (rule heapRefs_append)
  ultimately show ?thesis
    using l by (simp add: matrixGetH_def matrixGet_def jsIndex_def)
qed

lemma rotatedSetH_rep:
  assumes "j < length rot"
  shows "rotatedSetH (repHeapN h0 rot) (length h0 + length rot) j c v =
           Inr (repHeapN h0 (rot[j := (rot ! j)[c := v]]))"
  using assms
  by (simp add: rotatedSetH_def heapRefs_repN heapNums_repN repHeapN_update jsIndex_def)

lemma rotateInnerH_rep:
  assumes "matrixOf h0 matrixRef = Some M" "i < length M"
  shows "\<forall>j\<in>set js. j < length rot \<Longrightarrow>
         rotateInnerH (repHeapN h0 rot) matrixRef (length h0 + length rot) n i js =
           Inr (repHeapN h0
                  (fold (\<lambda>j rot. rot[j := (rot ! j)[n - 1 - i := matrixGet M i j]]) js rot)) \<and>
         length (fold (\<lambda>j rot. rot[j := (rot ! j)[n - 1 - i := matrixGet M i j]]) js rot) =
           length rot"
proof (induction js arbitrary: rot)
  case Nil
  show ?case by simp
next
  case (Cons j js)
  let ?rot1 = "rot[j := (rot ! j)[n - 1 - i := matrixGet M i j]]"
  from Cons.prems have j: "j < length rot" and js: "\<forall>j\<in>set js. j < length ?rot1" by simp_all
  from Cons.IH [OF js] matrixGetH_rep [OF assms, of rot j] rotatedSetH_rep [OF j]
  show ?case by simp
qed

lemma rotateOuterH_rep:
  assumes "matrixOf h0 matrixRef = Some M"
  shows "\<forall>i\<in>set is. i < length M \<Longrightarrow> length rot = m \<Longrightarrow>
         rotateOuterH (repHeapN h0 rot) matrixRef (length h0 + length rot) n m is =
           Inr (repHeapN h0
                  (fold (\<lambda>i. fold (\<lambda>j rot. rot[j := (rot ! j)[n - 1 - i := matrixGet M i j]])
                                  [0..<m]) is rot)) \<and>
         length (fold (\<lambda>i. fold (\<lambda>j rot. rot[j := (rot ! j)[n - 1 - i := matrixGet M i j]])
                                [0..<m]) is rot) = m"
proof (induction "is" arbitrary: rot)
  case Nil
  then show ?case by simp
next
  case (Cons i "is")
  let ?rot1 = "fold (\<lambda>j rot. rot[j := (rot ! j)[n - 1 - i := matrixGet M i j]]) [0..<m] rot"
  from Cons.prems have i: "i < length M" and r: "\<forall>i\<in>set is. i < length M" by simp_all
  from Cons.prems have "\<forall>j\<in>set [0..<m]. j < length rot" by simp
  from rotateInnerH_rep [OF assms i this, of n]
  have inner: "rotateInnerH (repHeapN h0 rot) matrixRef (length h0 + length rot) n i [0..<m] =
                 Inr (repHeapN h0 ?rot1)" and l: "length ?rot1 = length rot"
    by blast+
  with Cons.prems have l1: "length ?rot1 = m" by simp
  from Cons.IH [OF r l1] inner l show ?case by simp
qed

lemma rotateH_rep:
  assumes "matrixOf h matrixRef = Some M"
  shows "rotateH h matrixRef =
           (case rotate_matrix M of
              Inl e \<Rightarrow> Inl e
            | Inr rotated \<Rightarrow> Inr (repHeapN h rotated, length h + length rotated))"
proof -
  from assms obtain refs where refs: "heapRefs h matrixRef = Some refs"
    and rows: "list_all2 (\<lambda>r ns. heapNums h r = Some ns) refs M"
    by (auto simp: matrixOf_def those_map_Some split: option.splits)
  show ?thesis
  proof (cases M)
    case Nil
    with rows refs show ?thesis by (simp add: rotateH_def rotate_matrix_def)
  next
    case (Cons row0 rest)
    with rows obtain a0 arest where r: "refs = a0 # arest" and a0: "heapNums h a0 = Some row0"
      by (auto simp: list_all2_Cons2)
    from rows have n: "length refs = length M" by (rule list_all2_lengthD)
    let ?m = "length row0" and ?n = "length M"
    let ?rot0 = "replicate ?m (replicate ?n (Num 0))"
    have al: "alloc (h @ map NumRow ?rot0) (RefArray [length h ..< length h + ?m]) =
                (repHeapN h ?rot0, length h + length ?rot0)"
      by (simp add: alloc_def repHeapN_def)
    have "\<forall>i\<in>set [0..<?n]. i < length M" by simp
    from rotateOuterH_rep [OF assms this, of ?rot0 ?m ?n]
    have outer: "rotateOuterH (repHeapN h ?rot0) matrixRef (length h + ?m) ?n ?m [0..<?n] =
        Inr (repHeapN h
               (fold (\<lambda>i. fold (\<lambda>j rot. rot[j := (rot ! j)[?n - 1 - i := matrixGet M i j]])
                               [0..<?m]) [0..<?n] ?rot0))"
      and l: "length (fold (\<lambda>i. fold (\<lambda>j rot. rot[j := (rot ! j)[?n - 1 - i := matrixGet M i j]])
                               [0..<?m]) [0..<?n] ?rot0) = ?m"
      by simp_all
    from refs r a0 n al outer l Cons show ?thesis
      by (simp add: rotateH_def rotate_matrix_def allocRows_rep Let_def)
  qed
qed

text \<open>
  C5. \<open>rotate\<close> maps a matrix of \<open>N \<ge> 1\<close> rows of \<open>M\<close> cells each to the
  matrix of \<open>M\<close> rows of \<open>N\<close> cells with \<open>rotated[j][N - 1 - i] = matrix[i][j]\<close>
  for all \<open>i < N\<close>, \<open>j < M\<close>. In the store, the call returns a reference to that
  matrix and leaves every object that was there before as it was, the input matrix
  among them. And four rotations of the shape of any of the seven catalog entries give
  that shape back.
\<close>

theorem rotate_matrix_spec:
  "(matrixOf h matrixRef = Some matrix \<and> matrix \<noteq> [] \<and> (\<forall>r\<in>set matrix. length r = m) \<longrightarrow>
      (\<exists>h' rotatedRef rotated.
         rotateH h matrixRef = Inr (h', rotatedRef) \<and>
         take (length h) h' = h \<and> matrixOf h' matrixRef = Some matrix \<and>
         matrixOf h' rotatedRef = Some rotated \<and> rotate_matrix matrix = Inr rotated \<and>
         length rotated = m \<and> (\<forall>r\<in>set rotated. length r = length matrix) \<and>
         (\<forall>i<length matrix. \<forall>j<m.
            rotated ! j ! (length matrix - 1 - i) = matrix ! i ! j))) \<and>
   rotateTimes 4 (shape (TETROMINOES k)) = Inr (shape (TETROMINOES k))"
proof (intro conjI impI)
  assume a: "matrixOf h matrixRef = Some matrix \<and> matrix \<noteq> [] \<and>
             (\<forall>r\<in>set matrix. length r = m)"
  then obtain rotated where r: "rotate_matrix matrix = Inr rotated" "length rotated = m"
    "\<forall>j<m. length (rotated ! j) = length matrix"
    "\<forall>i<length matrix. \<forall>j<m. rotated ! j ! (length matrix - 1 - i) = matrix ! i ! j"
    using rotate_matrix_rect [of matrix m] by blast
  from r(2,3) have rows: "\<forall>r\<in>set rotated. length r = length matrix"
    by (auto simp: in_set_conv_nth)
  from a have mo: "matrixOf h matrixRef = Some matrix" by simp
  from rotateH_rep [OF mo] r(1)
  have "rotateH h matrixRef = Inr (repHeapN h rotated, length h + length rotated)" by simp
  moreover have "take (length h) (repHeapN h rotated) = h" by (simp add: repHeapN_def)
  moreover have "matrixOf (repHeapN h rotated) matrixRef = Some matrix"
    unfolding repHeapN_def using mo by (rule matrixOf_append)
  moreover note matrixOf_repN [of h rotated] r(1,2,4) rows
  ultimately show "\<exists>h' rotatedRef rotated.
         rotateH h matrixRef = Inr (h', rotatedRef) \<and>
         take (length h) h' = h \<and> matrixOf h' matrixRef = Some matrix \<and>
         matrixOf h' rotatedRef = Some rotated \<and> rotate_matrix matrix = Inr rotated \<and>
         length rotated = m \<and> (\<forall>r\<in>set rotated. length r = length matrix) \<and>
         (\<forall>i<length matrix. \<forall>j<m.
            rotated ! j ! (length matrix - 1 - i) = matrix ! i ! j)"
    by blast
next
  show "rotateTimes 4 (shape (TETROMINOES k)) = Inr (shape (TETROMINOES k))"
    by (cases k) (simp_all only: rotate4_catalog)
qed

theorem rotate_matrix_spec_witness:
  "matrixOf [NumRow [Num 1, Num 2, Num 3], NumRow [Num 4, Num 5, Num 6], RefArray [0, 1]] 2 =
     Some [[Num 1, Num 2, Num 3], [Num 4, Num 5, Num 6]] \<and>
   [[Num 1, Num 2, Num 3], [Num 4, Num 5, Num 6]] \<noteq> [] \<and>
   (\<exists>h' rotatedRef.
      rotateH [NumRow [Num 1, Num 2, Num 3], NumRow [Num 4, Num 5, Num 6], RefArray [0, 1]] 2 =
        Inr (h', rotatedRef) \<and>
      take (length [NumRow [Num 1, Num 2, Num 3], NumRow [Num 4, Num 5, Num 6], RefArray [0, 1]])
        h' = [NumRow [Num 1, Num 2, Num 3], NumRow [Num 4, Num 5, Num 6], RefArray [0, 1]] \<and>
      matrixOf h' rotatedRef = Some [[Num 4, Num 1], [Num 5, Num 2], [Num 6, Num 3]])"
proof -
  let ?h = "[NumRow [Num 1, Num 2, Num 3], NumRow [Num 4, Num 5, Num 6], RefArray [0, 1]]"
  let ?M = "[[Num 1, Num 2, Num 3], [Num 4, Num 5, Num 6]]"
  have e: "rotate_matrix ?M = Inr [[Num 4, Num 1], [Num 5, Num 2], [Num 6, Num 3]]"
    by code_simp
  have mo: "matrixOf ?h 2 = Some ?M" by code_simp
  then have h: "matrixOf ?h 2 = Some ?M \<and> ?M \<noteq> [] \<and> (\<forall>r\<in>set ?M. length r = 3)"
    by simp
  from rotate_matrix_spec [of ?h 2 ?M 3 KeyI] h
  obtain h' rotatedRef rotated where
    "rotateH ?h 2 = Inr (h', rotatedRef)" "take (length ?h) h' = ?h"
    "matrixOf h' rotatedRef = Some rotated" "rotate_matrix ?M = Inr rotated"
    by blast
  with e mo show ?thesis by (intro conjI exI [of _ h'] exI [of _ rotatedRef]) simp_all
qed

section \<open>Row clearing\<close>

lemma list_ex_Null: "list_ex (\<lambda>c. c = Null) r \<longleftrightarrow> \<not> fullRow r"
  by (auto simp: fullRow_def list_ex_iff)

lemma clearRows_eq:
  assumes "int (length b) = GRID_HEIGHT"
  shows "clearRows b =
           (replicate (length (filter fullRow b)) (replicate (nat GRID_WIDTH) Null) @
              filter (\<lambda>r. \<not> fullRow r) b,
            int (length (filter fullRow b)))"
proof -
  have "length (filter fullRow b) + length (filter (\<lambda>r. \<not> fullRow r) b) = length b"
    by (rule sum_length_filter_compl)
  with assms have "GRID_HEIGHT - int (length (filter (\<lambda>r. \<not> fullRow r) b)) =
                   int (length (filter fullRow b))"
    by linarith
  then show ?thesis
    by (simp add: clearRows_def list_ex_Null Let_def)
qed

lemma clearRows_wf:
  assumes "wfBoard b"
  shows "wfBoard (fst (clearRows b))"
proof -
  from assms have h: "int (length b) = GRID_HEIGHT" by (simp add: wfBoard_def)
  have "length (filter fullRow b) + length (filter (\<lambda>r. \<not> fullRow r) b) = length b"
    by (rule sum_length_filter_compl)
  with h assms show ?thesis
    unfolding clearRows_eq [OF h] by (auto simp: wfBoard_def GRID_WIDTH_def)
qed

text \<open>
  C3. For every board of \<open>GRID_HEIGHT\<close> rows, \<open>clearRows\<close> returns the rows that are
  not full, in their order, below as many fresh empty rows as there were full rows; the
  count it reports is the number of full rows of the input; and the board it returns has
  \<open>GRID_HEIGHT\<close> rows again.
\<close>

theorem clearRows_spec:
  assumes "int (length b) = GRID_HEIGHT"
  shows "clearRows b =
           (replicate (length (filter fullRow b)) (replicate (nat GRID_WIDTH) Null) @
              filter (\<lambda>r. \<not> fullRow r) b,
            int (length (filter fullRow b))) \<and>
         int (length (fst (clearRows b))) = GRID_HEIGHT"
proof -
  have "length (filter fullRow b) + length (filter (\<lambda>r. \<not> fullRow r) b) = length b"
    by (rule sum_length_filter_compl)
  with assms show ?thesis
    by (simp add: clearRows_eq [OF assms])
qed

theorem clearRows_spec_witness:
  "int (length (replicate 18 (replicate 10 Null) @
                [replicate 10 (Color ''red''), Color ''blue'' # replicate 9 Null])) = GRID_HEIGHT \<and>
   clearRows (replicate 18 (replicate 10 Null) @
              [replicate 10 (Color ''red''), Color ''blue'' # replicate 9 Null]) =
     (replicate 19 (replicate 10 Null) @ [Color ''blue'' # replicate 9 Null], 1)"
proof -
  have h: "int (length (replicate 18 (replicate 10 Null) @
                [replicate 10 (Color ''red''), Color ''blue'' # replicate 9 Null])) = GRID_HEIGHT"
    by (simp add: GRID_HEIGHT_def)
  have "replicate (length (filter fullRow (replicate 18 (replicate 10 Null) @
              [replicate 10 (Color ''red''), Color ''blue'' # replicate 9 Null])))
          (replicate (nat GRID_WIDTH) Null) @
        filter (\<lambda>r. \<not> fullRow r) (replicate 18 (replicate 10 Null) @
              [replicate 10 (Color ''red''), Color ''blue'' # replicate 9 Null]) =
        replicate 19 (replicate 10 Null) @ [Color ''blue'' # replicate 9 Null]"
    by code_simp
  moreover have "int (length (filter fullRow (replicate 18 (replicate 10 Null) @
              [replicate 10 (Color ''red''), Color ''blue'' # replicate 9 Null]))) = 1"
    by code_simp
  ultimately show ?thesis
    using clearRows_spec [OF h] h by simp
qed

section \<open>Merging a block into the board\<close>

lemma wfBoard_nth:
  assumes "wfBoard b" "inGrid c r"
  shows "nat r < length b" and "nat c < length (b ! nat r)"
proof -
  from assms show r: "nat r < length b" unfolding wfBoard_def inGrid_def by linarith
  then have "b ! nat r \<in> set b" by simp
  with assms have "int (length (b ! nat r)) = GRID_WIDTH" by (simp add: wfBoard_def)
  with assms show "nat c < length (b ! nat r)" unfolding inGrid_def by linarith
qed

lemma boardSet_wf:
  assumes "wfBoard b" "inGrid c r"
  shows "boardSet b r c v = Inr (b[nat r := (b ! nat r)[nat c := v]])"
    and "wfBoard (b[nat r := (b ! nat r)[nat c := v]])"
proof -
  note n = wfBoard_nth [OF assms]
  from n assms show "boardSet b r c v = Inr (b[nat r := (b ! nat r)[nat c := v]])"
    by (simp add: boardSet_def jsIndex_def jsStore_def inGrid_def)
  have "set (b[nat r := (b ! nat r)[nat c := v]]) \<subseteq> insert ((b ! nat r)[nat c := v]) (set b)"
    by (rule set_update_subset_insert)
  moreover have "int (length ((b ! nat r)[nat c := v])) = GRID_WIDTH"
    using n assms by (simp add: wfBoard_def)
  ultimately show "wfBoard (b[nat r := (b ! nat r)[nat c := v]])"
    using assms(1) by (auto simp: wfBoard_def)
qed

lemma boardSet_nth:
  assumes "wfBoard b" "inGrid c r" "inGrid c' r'"
  shows "b[nat r := (b ! nat r)[nat c := v]] ! nat r' ! nat c' =
           (if c' = c \<and> r' = r then v else b ! nat r' ! nat c')"
proof -
  note n = wfBoard_nth [OF assms(1,2)] and n' = wfBoard_nth [OF assms(1,3)]
  from assms(2,3) have eq: "nat r' = nat r \<longleftrightarrow> r' = r" "nat c' = nat c \<longleftrightarrow> c' = c"
    by (auto simp: inGrid_def)
  show ?thesis
    using n n' eq by (auto simp: nth_list_update)
qed

lemma mergeRow_wf:
  assumes "wfBoard nb"
  shows "\<exists>nb'. mergeRow clr bx boardY col cs nb = Inr nb' \<and> wfBoard nb' \<and>
           (\<forall>c r. inGrid c r \<longrightarrow>
              nb' ! nat r ! nat c =
                (if r = boardY \<and> (\<exists>j<length cs. truthy (cs ! j) \<and> bx + int (col + j) = c)
                 then Color clr else nb ! nat r ! nat c))"
  using assms
proof (induction cs arbitrary: col nb)
  case Nil
  then show ?case by simp
next
  case (Cons k cs)
  show ?case
  proof (cases "truthy k \<and> inGrid (bx + int col) boardY")
    case True
    let ?nb1 = "nb[nat boardY := (nb ! nat boardY)[nat (bx + int col) := Color clr]]"
    from True Cons.prems have s: "boardSet nb boardY (bx + int col) (Color clr) = Inr ?nb1"
      and w: "wfBoard ?nb1"
      by (simp_all add: boardSet_wf)
    from Cons.IH [OF w, of "Suc col"] obtain nb' where
      m: "mergeRow clr bx boardY (Suc col) cs ?nb1 = Inr nb'" and w': "wfBoard nb'" and
      v: "\<And>c r. inGrid c r \<Longrightarrow> nb' ! nat r ! nat c =
                (if r = boardY \<and> (\<exists>j<length cs. truthy (cs ! j) \<and> bx + int (Suc col + j) = c)
                 then Color clr else ?nb1 ! nat r ! nat c)"
      by blast
    have "mergeRow clr bx boardY col (k # cs) nb = Inr nb'"
      using True s m by (simp add: inGrid_def)
    moreover have "nb' ! nat r ! nat c =
          (if r = boardY \<and>
              (\<exists>j<length (k # cs). truthy ((k # cs) ! j) \<and> bx + int (col + j) = c)
           then Color clr else nb ! nat r ! nat c)" if g: "inGrid c r" for c r
      using v [OF g] True boardSet_nth [OF Cons.prems _ g, of "bx + int col" boardY "Color clr"]
      by (auto simp: Ex_less_Suc2 add.assoc add.left_commute)
    ultimately show ?thesis using w' by blast
  next
    case False
    from Cons.IH [OF Cons.prems, of "Suc col"] obtain nb' where
      m: "mergeRow clr bx boardY (Suc col) cs nb = Inr nb'" and w': "wfBoard nb'" and
      v: "\<And>c r. inGrid c r \<Longrightarrow> nb' ! nat r ! nat c =
                (if r = boardY \<and> (\<exists>j<length cs. truthy (cs ! j) \<and> bx + int (Suc col + j) = c)
                 then Color clr else nb ! nat r ! nat c)"
      by blast
    have "mergeRow clr bx boardY col (k # cs) nb = Inr nb'"
      using False m by (auto simp: inGrid_def)
    moreover have "nb' ! nat r ! nat c =
          (if r = boardY \<and>
              (\<exists>j<length (k # cs). truthy ((k # cs) ! j) \<and> bx + int (col + j) = c)
           then Color clr else nb ! nat r ! nat c)" if g: "inGrid c r" for c r
      using v [OF g] False g
      by (auto simp: Ex_less_Suc2 add.assoc add.left_commute)
    ultimately show ?thesis using w' by blast
  qed
qed

lemma mergeRows_wf:
  assumes "wfBoard nb"
  shows "\<exists>nb'. mergeRows clr bx by' row rs nb = Inr nb' \<and> wfBoard nb' \<and>
           (\<forall>c r. inGrid c r \<longrightarrow>
              nb' ! nat r ! nat c =
                (if \<exists>i<length rs. \<exists>j<length (rs ! i).
                      truthy (rs ! i ! j) \<and> bx + int j = c \<and> by' + int (row + i) = r
                 then Color clr else nb ! nat r ! nat c))"
  using assms
proof (induction rs arbitrary: row nb)
  case Nil
  then show ?case by simp
next
  case (Cons k rs)
  from mergeRow_wf [OF Cons.prems, of clr bx "by' + int row" 0 k] obtain nb1 where
    m1: "mergeRow clr bx (by' + int row) 0 k nb = Inr nb1" and w1: "wfBoard nb1" and
    v1: "\<And>c r. inGrid c r \<Longrightarrow> nb1 ! nat r ! nat c =
                (if r = by' + int row \<and> (\<exists>j<length k. truthy (k ! j) \<and> bx + int (0 + j) = c)
                 then Color clr else nb ! nat r ! nat c)"
    by blast
  from Cons.IH [OF w1, of "Suc row"] obtain nb' where
    m: "mergeRows clr bx by' (Suc row) rs nb1 = Inr nb'" and w': "wfBoard nb'" and
    v: "\<And>c r. inGrid c r \<Longrightarrow> nb' ! nat r ! nat c =
          (if \<exists>i<length rs. \<exists>j<length (rs ! i).
                truthy (rs ! i ! j) \<and> bx + int j = c \<and> by' + int (Suc row + i) = r
           then Color clr else nb1 ! nat r ! nat c)"
    by blast
  have "mergeRows clr bx by' row (k # rs) nb = Inr nb'"
    using m1 m by simp
  moreover have "nb' ! nat r ! nat c =
          (if \<exists>i<length (k # rs). \<exists>j<length ((k # rs) ! i).
                truthy ((k # rs) ! i ! j) \<and> bx + int j = c \<and> by' + int (row + i) = r
           then Color clr else nb ! nat r ! nat c)" if g: "inGrid c r" for c r
    using v [OF g] v1 [OF g]
    by (auto simp: Ex_less_Suc2 add.assoc add.left_commute)
  ultimately show ?case using w' by blast
qed

lemma mergeTetromino_wf:
  assumes "wfBoard b"
  shows "\<exists>nb. mergeTetromino b blk = Inr nb \<and> wfBoard nb \<and>
           (\<forall>c r. inGrid c r \<longrightarrow>
              nb ! nat r ! nat c =
                (if \<exists>i<length (shape (tetromino blk)). \<exists>j<length (shape (tetromino blk) ! i).
                      truthy (shape (tetromino blk) ! i ! j) \<and>
                      x blk + int j = c \<and> y blk + int i = r
                 then Color (color (tetromino blk)) else b ! nat r ! nat c))"
  using mergeRows_wf [OF assms, of "color (tetromino blk)" "x blk" "y blk" 0
      "shape (tetromino blk)"]
  by (simp add: mergeTetromino_def)

lemma heapCells_append: "heapCells h a = Some cs \<Longrightarrow> heapCells (h @ e) a = Some cs"
  by (auto simp: heapCells_def nth_append split: if_splits)

lemma copyRows_rep:
  assumes "list_all2 (\<lambda>r cs. heapCells h r = Some cs) refs b"
  shows "copyRows h refs = Inr (h @ map CellRow b, [length h ..< length h + length b])"
  using assms
proof (induction refs arbitrary: h b)
  case Nil
  then show ?case by simp
next
  case (Cons r rs)
  from Cons.prems obtain cs b' where b: "b = cs # b'" and r: "heapCells h r = Some cs"
    and rs: "list_all2 (\<lambda>r cs. heapCells h r = Some cs) rs b'"
    by (auto simp: list_all2_Cons1)
  from rs have "list_all2 (\<lambda>r q. heapCells (h @ [CellRow cs]) r = Some q) rs b'"
    by (rule list_all2_mono) (rule heapCells_append)
  from Cons.IH [OF this] r b show ?case
    by (simp add: alloc_def upt_conv_Cons del: upt_Suc)
qed

lemma heapRefs_rep:
  "heapRefs (repHeap h0 nb) (length h0 + length nb) =
     Some [length h0 ..< length h0 + length nb]"
  by (simp add: heapRefs_def repHeap_def nth_append)

lemma heapCells_rep:
  "i < length nb \<Longrightarrow> heapCells (repHeap h0 nb) (length h0 + i) = Some (nb ! i)"
  by (simp add: heapCells_def repHeap_def nth_append)

lemma repHeap_update:
  "i < length nb \<Longrightarrow>
   (repHeap h0 nb)[length h0 + i := CellRow r] = repHeap h0 (nb[i := r])"
  by (simp add: repHeap_def list_update_append map_update)

lemma boardSetH_rep:
  "boardSetH (repHeap h0 nb) (length h0 + length nb) boardY boardX v =
     (case boardSet nb boardY boardX v of Inl e \<Rightarrow> Inl e | Inr nb' \<Rightarrow> Inr (repHeap h0 nb'))"
proof (cases "0 \<le> boardY \<and> nat boardY < length nb")
  case True
  then have "jsIndex [length h0 ..< length h0 + length nb] boardY = Some (length h0 + nat boardY)"
    by (simp add: jsIndex_def)
  with True show ?thesis
    by (simp add: boardSetH_def boardSet_def heapRefs_rep heapCells_rep repHeap_update
        jsIndex_def)
next
  case False
  then show ?thesis
    by (auto simp: boardSetH_def boardSet_def heapRefs_rep jsIndex_def)
qed

lemma boardSet_length:
  "boardSet nb boardY boardX v = Inr nb' \<Longrightarrow> length nb' = length nb"
  by (auto simp: boardSet_def split: option.splits)

lemma mergeRowH_rep:
  "mergeRowH clr bx boardY col cs (length h0 + length nb) (repHeap h0 nb) =
     (case mergeRow clr bx boardY col cs nb of
        Inl e \<Rightarrow> Inl e | Inr nb' \<Rightarrow> Inr (repHeap h0 nb')) \<and>
   (\<forall>nb'. mergeRow clr bx boardY col cs nb = Inr nb' \<longrightarrow> length nb' = length nb)"
proof (induction cs arbitrary: col nb)
  case Nil
  show ?case by simp
next
  case (Cons c cs)
  show ?case
  proof (cases "truthy c \<and> bx + int col \<ge> 0 \<and> bx + int col < GRID_WIDTH \<and>
                boardY \<ge> 0 \<and> boardY < GRID_HEIGHT")
    case False
    with Cons.IH [of "Suc col" nb] show ?thesis by auto
  next
    case True
    show ?thesis
    proof (cases "boardSet nb boardY (bx + int col) (Color clr)")
      case (Inl e)
      with True show ?thesis by (simp add: boardSetH_rep)
    next
      case (Inr nb1)
      from boardSet_length [OF Inr] have l: "length nb1 = length nb" .
      from Cons.IH [of "Suc col" nb1] Inr True l show ?thesis
        by (simp add: boardSetH_rep)
    qed
  qed
qed

lemma mergeRowsH_rep:
  "mergeRowsH clr bx by' row rs (length h0 + length nb) (repHeap h0 nb) =
     (case mergeRows clr bx by' row rs nb of
        Inl e \<Rightarrow> Inl e | Inr nb' \<Rightarrow> Inr (repHeap h0 nb')) \<and>
   (\<forall>nb'. mergeRows clr bx by' row rs nb = Inr nb' \<longrightarrow> length nb' = length nb)"
proof (induction rs arbitrary: row nb)
  case Nil
  show ?case by simp
next
  case (Cons r rs)
  note step = mergeRowH_rep [of clr bx "by' + int row" 0 r h0 nb]
  show ?case
  proof (cases "mergeRow clr bx (by' + int row) 0 r nb")
    case (Inl e)
    with step show ?thesis by simp
  next
    case (Inr nb1)
    with step have l: "length nb1 = length nb" by simp
    from Cons.IH [of "Suc row" nb1] Inr step l show ?thesis
      by simp
  qed
qed

lemma boardOf_rep: "boardOf (repHeap h0 nb) (length h0 + length nb) = Some nb"
proof -
  have "list_all2 (\<lambda>a r. heapCells (repHeap h0 nb) a = Some r)
          [length h0 ..< length h0 + length nb] nb"
    by (simp add: list_all2_conv_all_nth heapCells_rep)
  then show ?thesis
    by (simp add: boardOf_def heapRefs_rep those_map_Some)
qed

lemma mergeTetrominoH_rep:
  assumes "boardOf h boardRef = Some b"
  shows "mergeTetrominoH h boardRef blk =
           (case mergeTetromino b blk of
              Inl e \<Rightarrow> Inl e
            | Inr nb \<Rightarrow> Inr (repHeap h nb, length h + length nb))"
proof -
  from assms obtain refs where refs: "heapRefs h boardRef = Some refs"
    and rows: "list_all2 (\<lambda>r cs. heapCells h r = Some cs) refs b"
    by (auto simp: boardOf_def those_map_Some split: option.splits)
  have "alloc (h @ map CellRow b) (RefArray [length h ..< length h + length b]) =
          (repHeap h b, length h + length b)"
    by (simp add: alloc_def repHeap_def)
  with refs copyRows_rep [OF rows]
    mergeRowsH_rep [of "color (tetromino blk)" "x blk" "y blk" 0 "shape (tetromino blk)" h b]
  show ?thesis
    by (auto simp: mergeTetrominoH_def mergeTetromino_def split: sum.splits)
qed

lemma boardOf_append:
  assumes "boardOf h ref = Some b"
  shows "boardOf (h @ e) ref = Some b"
proof -
  from assms obtain refs where refs: "heapRefs h ref = Some refs"
    and rows: "list_all2 (\<lambda>r cs. heapCells h r = Some cs) refs b"
    by (auto simp: boardOf_def those_map_Some split: option.splits)
  from rows have "list_all2 (\<lambda>r cs. heapCells (h @ e) r = Some cs) refs b"
    by (rule list_all2_mono) (rule heapCells_append)
  with heapRefs_append [OF refs, of e] show ?thesis
    by (simp add: boardOf_def those_map_Some)
qed

text \<open>
  C7. On a board of the data model, for every falling block, \<open>mergeTetromino\<close> returns
  (it does not throw) a board of the same dimensions in which the cell at column \<open>c\<close>,
  row \<open>r\<close> holds the block's colour when some occupied shape cell maps to \<open>(c, r)\<close>, and
  holds what the input board holds there otherwise; an occupied shape cell that maps
  outside the grid changes nothing. In the store, the call returns a reference to that
  board and leaves every object that was there before as it was: the input board still
  reads as before.
\<close>

theorem mergeTetromino_spec:
  assumes "boardOf h boardRef = Some b" "wfBoard b"
  shows "\<exists>h' newBoard nb.
           mergeTetrominoH h boardRef blk = Inr (h', newBoard) \<and>
           take (length h) h' = h \<and> boardOf h' boardRef = Some b \<and>
           boardOf h' newBoard = Some nb \<and> mergeTetromino b blk = Inr nb \<and> wfBoard nb \<and>
           (\<forall>c r. 0 \<le> c \<and> c < GRID_WIDTH \<and> 0 \<le> r \<and> r < GRID_HEIGHT \<longrightarrow>
              nb ! nat r ! nat c =
                (if \<exists>row<length (shape (tetromino blk)).
                      \<exists>col<length (shape (tetromino blk) ! row).
                        truthy (shape (tetromino blk) ! row ! col) \<and>
                        x blk + int col = c \<and> y blk + int row = r
                 then Color (color (tetromino blk)) else b ! nat r ! nat c))"
proof -
  from mergeTetromino_wf [OF assms(2), of blk] obtain nb where
    m: "mergeTetromino b blk = Inr nb" and w: "wfBoard nb" and
    v: "\<forall>c r. inGrid c r \<longrightarrow>
              nb ! nat r ! nat c =
                (if \<exists>i<length (shape (tetromino blk)). \<exists>j<length (shape (tetromino blk) ! i).
                      truthy (shape (tetromino blk) ! i ! j) \<and>
                      x blk + int j = c \<and> y blk + int i = r
                 then Color (color (tetromino blk)) else b ! nat r ! nat c)"
    by blast
  from mergeTetrominoH_rep [OF assms(1), of blk] m
  have "mergeTetrominoH h boardRef blk = Inr (repHeap h nb, length h + length nb)" by simp
  moreover have "take (length h) (repHeap h nb) = h" by (simp add: repHeap_def)
  moreover have "boardOf (repHeap h nb) boardRef = Some b"
    unfolding repHeap_def using assms(1) by (rule boardOf_append)
  moreover note boardOf_rep [of h nb] m w
  moreover from v have "\<forall>c r. 0 \<le> c \<and> c < GRID_WIDTH \<and> 0 \<le> r \<and> r < GRID_HEIGHT \<longrightarrow>
              nb ! nat r ! nat c =
                (if \<exists>row<length (shape (tetromino blk)).
                      \<exists>col<length (shape (tetromino blk) ! row).
                        truthy (shape (tetromino blk) ! row ! col) \<and>
                        x blk + int col = c \<and> y blk + int row = r
                 then Color (color (tetromino blk)) else b ! nat r ! nat c)"
    by (simp add: inGrid_def)
  ultimately show ?thesis by blast
qed

theorem mergeTetromino_spec_witness:
  "boardOf (map CellRow createEmptyBoard @ [RefArray [0..<20]]) 20 = Some createEmptyBoard \<and>
   wfBoard createEmptyBoard \<and>
   (\<exists>h' newBoard.
      mergeTetrominoH (map CellRow createEmptyBoard @ [RefArray [0..<20]]) 20
        \<lparr>tetromino = TETROMINOES KeyT, x = 8, y = 18\<rparr> = Inr (h', newBoard) \<and>
      take (length (map CellRow createEmptyBoard @ [RefArray [0..<20]])) h' =
        map CellRow createEmptyBoard @ [RefArray [0..<20]] \<and>
      boardOf h' 20 = Some createEmptyBoard \<and>
      boardOf h' newBoard =
        Some (replicate 18 (replicate 10 Null) @
              [replicate 9 Null @ [Color ''purple''],
               replicate 8 Null @ [Color ''purple'', Color ''purple'']]))"
proof -
  let ?h = "map CellRow createEmptyBoard @ [RefArray [0..<20]]"
  have b: "boardOf ?h 20 = Some createEmptyBoard"
    by code_simp
  have e: "mergeTetromino createEmptyBoard \<lparr>tetromino = TETROMINOES KeyT, x = 8, y = 18\<rparr> =
     Inr (replicate 18 (replicate 10 Null) @
          [replicate 9 Null @ [Color ''purple''],
           replicate 8 Null @ [Color ''purple'', Color ''purple'']])"
    by code_simp
  from mergeTetromino_spec [OF b wfBoard_createEmptyBoard,
      of "\<lparr>tetromino = TETROMINOES KeyT, x = 8, y = 18\<rparr>"]
  obtain h' newBoard nb where
    "mergeTetrominoH ?h 20 \<lparr>tetromino = TETROMINOES KeyT, x = 8, y = 18\<rparr> = Inr (h', newBoard)"
    "take (length ?h) h' = ?h" "boardOf h' 20 = Some createEmptyBoard"
    "boardOf h' newBoard = Some nb"
    "mergeTetromino createEmptyBoard \<lparr>tetromino = TETROMINOES KeyT, x = 8, y = 18\<rparr> = Inr nb"
    by blast
  with e b wfBoard_createEmptyBoard show ?thesis by auto
qed

section \<open>The reducer\<close>

lemma spawnNewBlock_nonempty:
  "shape t \<noteq> [] \<Longrightarrow>
   spawnNewBlock b t =
     Inr \<lparr>tetromino = t, x = (GRID_WIDTH - int (length (hd (shape t)))) div 2, y = 0\<rparr>"
  by (cases "shape t") (simp_all add: spawnNewBlock_def Let_def)

lemma canPlaceTetromino_total:
  "wfBoard b \<Longrightarrow> \<exists>ok. canPlaceTetromino b t px py = Inr ok"
  by (simp add: canPlaceTetromino_wf)

lemma jsAdd_exact: "\<bar>a + b\<bar> \<le> 2 ^ 53 \<Longrightarrow> jsAdd a b = a + b"
  by (simp add: jsAdd_def roundDouble_def)

lemma lockBlock_wf:
  assumes "wfBoard (board s)" "shape (nextTetromino s) \<noteq> []"
  shows "\<exists>merged ok.
           mergeTetromino (board s) blk = Inr merged \<and> wfBoard merged \<and>
           canPlaceTetromino (fst (clearRows merged)) (nextTetromino s)
             ((GRID_WIDTH - int (length (hd (shape (nextTetromino s))))) div 2) 0 = Inr ok \<and>
           lockBlock k s blk =
             Inr \<lparr>board = fst (clearRows merged),
                  currentBlock =
                    \<lparr>tetromino = nextTetromino s,
                     x = (GRID_WIDTH - int (length (hd (shape (nextTetromino s))))) div 2,
                     y = 0\<rparr>,
                  nextTetromino = randomTetromino k,
                  gameOver = (\<not> ok),
                  score = jsAdd (score s) (int (length (filter fullRow merged)) * 100)\<rparr>"
proof -
  from mergeTetromino_wf [OF assms(1), of blk] obtain merged where
    m: "mergeTetromino (board s) blk = Inr merged" and w: "wfBoard merged"
    by blast
  from w have h: "int (length merged) = GRID_HEIGHT" by (simp add: wfBoard_def)
  from canPlaceTetromino_total [OF clearRows_wf [OF w]] obtain ok where
    c: "canPlaceTetromino (fst (clearRows merged)) (nextTetromino s)
          ((GRID_WIDTH - int (length (hd (shape (nextTetromino s))))) div 2) 0 = Inr ok"
    by blast
  have n: "snd (clearRows merged) = int (length (filter fullRow merged))"
    by (simp add: clearRows_eq [OF h])
  have "lockBlock k s blk =
             Inr \<lparr>board = fst (clearRows merged),
                  currentBlock =
                    \<lparr>tetromino = nextTetromino s,
                     x = (GRID_WIDTH - int (length (hd (shape (nextTetromino s))))) div 2,
                     y = 0\<rparr>,
                  nextTetromino = randomTetromino k,
                  gameOver = (\<not> ok),
                  score = jsAdd (score s) (int (length (filter fullRow merged)) * 100)\<rparr>"
    using m c n spawnNewBlock_nonempty [OF assms(2), of "fst (clearRows merged)"]
    by (simp add: lockBlock_def Let_def case_prod_beta)
  with m w c show ?thesis by blast
qed

text \<open>
  C1 (as amended). In a state that is not game over, on a board of the data model and
  with a queued piece whose shape has a row, when the active block cannot be placed one
  row down, a \<open>tick\<close> or \<open>down\<close> action returns the state of the lock sequence:

  \<^item> \<open>mergeTetromino\<close> returns a board \<open>merged\<close> of the data model, which holds the colour
    of the block at every grid cell under an occupied cell of its shape and the cell of
    the old board everywhere else;
  \<^item> \<open>clearRows\<close> returns the board \<open>cleared\<close>, which is the rows of \<open>merged\<close> that are not
    full, in their order, under as many empty rows as \<open>merged\<close> has full rows, and
    returns that number as the rows cleared;
  \<^item> the new state has the board \<open>cleared\<close>, the queued piece as the active block at
    \<open>x = (GRID_WIDTH - width) div 2\<close>, \<open>y = 0\<close>, and the freshly drawn piece as the preview;
  \<^item> \<open>gameOver\<close> is set exactly when the new block cannot be placed on \<open>cleared\<close>, that is
    when an occupied cell of its shape falls outside the grid or on a cell of \<open>cleared\<close>
    that is not empty;
  \<^item> the score is the JavaScript sum of the old score and 100 times the rows cleared;
    it is the old score plus exactly that amount whenever the sum is at most \<open>2^53\<close> in
    absolute value; beyond that it is the double nearest to the sum.
\<close>

theorem updateState_lock:
  assumes "\<not> gameOver s" "wfBoard (board s)" "shape (nextTetromino s) \<noteq> []"
    and "canPlaceTetromino (board s) (tetromino (currentBlock s))
           (x (currentBlock s)) (y (currentBlock s) + 1) = Inr False"
    and "action = Tick \<or> action = Down"
  shows "\<exists>merged cleared ok.
           mergeTetromino (board s) (currentBlock s) = Inr merged \<and> wfBoard merged \<and>
           (\<forall>c r. 0 \<le> c \<and> c < GRID_WIDTH \<and> 0 \<le> r \<and> r < GRID_HEIGHT \<longrightarrow>
              merged ! nat r ! nat c =
                (if \<exists>row<length (shape (tetromino (currentBlock s))).
                      \<exists>col<length (shape (tetromino (currentBlock s)) ! row).
                        truthy (shape (tetromino (currentBlock s)) ! row ! col) \<and>
                        x (currentBlock s) + int col = c \<and> y (currentBlock s) + int row = r
                 then Color (color (tetromino (currentBlock s)))
                 else board s ! nat r ! nat c)) \<and>
           clearRows merged = (cleared, int (length (filter fullRow merged))) \<and>
           cleared =
             replicate (length (filter fullRow merged)) (replicate (nat GRID_WIDTH) Null) @
             filter (\<lambda>r. \<not> fullRow r) merged \<and>
           canPlaceTetromino cleared (nextTetromino s)
             ((GRID_WIDTH - int (length (hd (shape (nextTetromino s))))) div 2) 0 = Inr ok \<and>
           ok =
             (\<forall>row<length (shape (nextTetromino s)).
                \<forall>col<length (shape (nextTetromino s) ! row).
                  truthy (shape (nextTetromino s) ! row ! col) \<longrightarrow>
                  0 \<le> (GRID_WIDTH - int (length (hd (shape (nextTetromino s))))) div 2 + int col \<and>
                  (GRID_WIDTH - int (length (hd (shape (nextTetromino s))))) div 2 + int col
                    < GRID_WIDTH \<and>
                  int row < GRID_HEIGHT \<and>
                  cleared ! row !
                    nat ((GRID_WIDTH - int (length (hd (shape (nextTetromino s))))) div 2 + int col)
                    = Null) \<and>
           updateState k s action =
             Some (Inr \<lparr>board = cleared,
                  currentBlock =
                    \<lparr>tetromino = nextTetromino s,
                     x = (GRID_WIDTH - int (length (hd (shape (nextTetromino s))))) div 2,
                     y = 0\<rparr>,
                  nextTetromino = randomTetromino k,
                  gameOver = (\<not> ok),
                  score = jsAdd (score s) (int (length (filter fullRow merged)) * 100)\<rparr>) \<and>
           (\<bar>score s + int (length (filter fullRow merged)) * 100\<bar> \<le> 2 ^ 53 \<longrightarrow>
              jsAdd (score s) (int (length (filter fullRow merged)) * 100) =
                score s + int (length (filter fullRow merged)) * 100)"
proof -
  let ?X = "(GRID_WIDTH - int (length (hd (shape (nextTetromino s))))) div 2"
  from assms(1,4,5) have u: "updateState k s action = Some (lockBlock k s (currentBlock s))"
    by (auto simp: updateState_def tickOrDown_def Let_def)
  from lockBlock_wf [OF assms(2,3), of "currentBlock s" k] obtain merged ok where
    m: "mergeTetromino (board s) (currentBlock s) = Inr merged" and w: "wfBoard merged" and
    c: "canPlaceTetromino (fst (clearRows merged)) (nextTetromino s) ?X 0 = Inr ok" and
    l: "lockBlock k s (currentBlock s) =
             Inr \<lparr>board = fst (clearRows merged),
                  currentBlock = \<lparr>tetromino = nextTetromino s, x = ?X, y = 0\<rparr>,
                  nextTetromino = randomTetromino k,
                  gameOver = (\<not> ok),
                  score = jsAdd (score s) (int (length (filter fullRow merged)) * 100)\<rparr>"
    by blast
  let ?cleared = "replicate (length (filter fullRow merged)) (replicate (nat GRID_WIDTH) Null) @
             filter (\<lambda>r. \<not> fullRow r) merged"
  from w have h: "int (length merged) = GRID_HEIGHT" by (simp add: wfBoard_def)
  have ce: "clearRows merged = (?cleared, int (length (filter fullRow merged)))"
    by (rule clearRows_eq [OF h])
  then have f: "fst (clearRows merged) = ?cleared" by simp
  from mergeTetromino_wf [OF assms(2), of "currentBlock s"] m
  have v: "\<forall>c r. 0 \<le> c \<and> c < GRID_WIDTH \<and> 0 \<le> r \<and> r < GRID_HEIGHT \<longrightarrow>
              merged ! nat r ! nat c =
                (if \<exists>row<length (shape (tetromino (currentBlock s))).
                      \<exists>col<length (shape (tetromino (currentBlock s)) ! row).
                        truthy (shape (tetromino (currentBlock s)) ! row ! col) \<and>
                        x (currentBlock s) + int col = c \<and> y (currentBlock s) + int row = r
                 then Color (color (tetromino (currentBlock s)))
                 else board s ! nat r ! nat c)"
    by (simp add: inGrid_def)
  from clearRows_wf [OF w] have wc: "wfBoard ?cleared" by (simp add: f)
  from c have c': "canPlaceTetromino ?cleared (nextTetromino s) ?X 0 = Inr ok" by (simp add: f)
  then have o: "ok =
             (\<forall>row<length (shape (nextTetromino s)).
                \<forall>col<length (shape (nextTetromino s) ! row).
                  truthy (shape (nextTetromino s) ! row ! col) \<longrightarrow>
                  0 \<le> ?X + int col \<and> ?X + int col < GRID_WIDTH \<and> int row < GRID_HEIGHT \<and>
                  ?cleared ! row ! nat (?X + int col) = Null)"
    unfolding canPlaceTetromino_wf [OF wc] cellFree_def by simp
  have e: "\<bar>score s + int (length (filter fullRow merged)) * 100\<bar> \<le> 2 ^ 53 \<longrightarrow>
              jsAdd (score s) (int (length (filter fullRow merged)) * 100) =
                score s + int (length (filter fullRow merged)) * 100"
    by (simp add: jsAdd_exact)
  from u l have "updateState k s action =
             Some (Inr \<lparr>board = ?cleared,
                  currentBlock = \<lparr>tetromino = nextTetromino s, x = ?X, y = 0\<rparr>,
                  nextTetromino = randomTetromino k,
                  gameOver = (\<not> ok),
                  score = jsAdd (score s) (int (length (filter fullRow merged)) * 100)\<rparr>)"
    by (simp add: f)
  with m w v ce c' o e show ?thesis by blast
qed

text \<open>
  Two locks. In \<open>landedState 700\<close> the block fills the gap of the two bottom rows: both are
  cleared, the row above them comes down to the bottom under two new empty rows, the
  score goes from 700 to 900, and the queued \<open>T\<close> piece is placed. In \<open>blockedState\<close> the
  block locks in rows 0 and 1, no row is cleared, and the queued \<open>T\<close> piece does not fit
  at its spawn position: \<open>gameOver\<close> is set, with the board, the score and the new block
  recorded.
\<close>

theorem updateState_lock_witness:
  "\<not> gameOver (landedState 700) \<and> wfBoard (board (landedState 700)) \<and>
   shape (nextTetromino (landedState 700)) \<noteq> [] \<and>
   canPlaceTetromino (board (landedState 700)) (tetromino (currentBlock (landedState 700)))
     (x (currentBlock (landedState 700))) (y (currentBlock (landedState 700)) + 1) = Inr False \<and>
   updateState KeyI (landedState 700) Tick =
     Some (Inr \<lparr>board = boardWithBottom
                  [[Color ''blue'', Null, Null, Null, Null, Null, Null, Null, Null, Null]],
               currentBlock = \<lparr>tetromino = randomTetromino KeyT, x = 3, y = 0\<rparr>,
               nextTetromino = randomTetromino KeyI, gameOver = False, score = 900\<rparr>) \<and>
   \<not> gameOver blockedState \<and> wfBoard (board blockedState) \<and>
   shape (nextTetromino blockedState) \<noteq> [] \<and>
   canPlaceTetromino (board blockedState) (tetromino (currentBlock blockedState))
     (x (currentBlock blockedState)) (y (currentBlock blockedState) + 1) = Inr False \<and>
   updateState KeyI blockedState Down =
     Some (Inr \<lparr>board =
                  [[Null, Null, Null, Null, Color ''yellow'', Color ''yellow'', Null, Null, Null, Null],
                   [Null, Null, Null, Null, Color ''yellow'', Color ''yellow'', Null, Null, Null, Null],
                   [Null, Null, Null, Null, Color ''red'', Null, Null, Null, Null, Null]] @
                  replicate 17 (replicate 10 Null),
               currentBlock = \<lparr>tetromino = randomTetromino KeyT, x = 3, y = 0\<rparr>,
               nextTetromino = randomTetromino KeyI, gameOver = True, score = 300\<rparr>)"
proof -
  let ?S = "landedState 700"
  let ?M = "boardWithBottom
        [[Color ''blue'', Null, Null, Null, Null, Null, Null, Null, Null, Null],
         [Color ''red'', Color ''red'', Color ''red'', Color ''red'', Color ''yellow'',
          Color ''yellow'', Color ''red'', Color ''red'', Color ''red'', Color ''red''],
         [Color ''red'', Color ''red'', Color ''red'', Color ''red'', Color ''yellow'',
          Color ''yellow'', Color ''red'', Color ''red'', Color ''red'', Color ''red'']]"
  let ?C = "boardWithBottom
              [[Color ''blue'', Null, Null, Null, Null, Null, Null, Null, Null, Null]]"
  have h1: "\<not> gameOver ?S" by (simp add: landedState_def)
  have h2: "wfBoard (board ?S)" by code_simp
  have h3: "shape (nextTetromino ?S) \<noteq> []" by code_simp
  have h4: "canPlaceTetromino (board ?S) (tetromino (currentBlock ?S))
              (x (currentBlock ?S)) (y (currentBlock ?S) + 1) = Inr False"
    by code_simp
  have h5: "Tick = Tick \<or> Tick = Down" by simp
  from updateState_lock [OF h1 h2 h3 h4 h5, of KeyI] obtain merged cleared ok where
    a: "mergeTetromino (board ?S) (currentBlock ?S) = Inr merged" and
    b: "cleared =
          replicate (length (filter fullRow merged)) (replicate (nat GRID_WIDTH) Null) @
          filter (\<lambda>r. \<not> fullRow r) merged" and
    c: "canPlaceTetromino cleared (nextTetromino ?S)
          ((GRID_WIDTH - int (length (hd (shape (nextTetromino ?S))))) div 2) 0 = Inr ok" and
    u: "updateState KeyI ?S Tick =
          Some (Inr \<lparr>board = cleared,
                  currentBlock =
                    \<lparr>tetromino = nextTetromino ?S,
                     x = (GRID_WIDTH - int (length (hd (shape (nextTetromino ?S))))) div 2,
                     y = 0\<rparr>,
                  nextTetromino = randomTetromino KeyI,
                  gameOver = (\<not> ok),
                  score = jsAdd (score ?S) (int (length (filter fullRow merged)) * 100)\<rparr>)"
    by (elim exE conjE) (rule that)
  have "mergeTetromino (board ?S) (currentBlock ?S) = Inr ?M" by code_simp
  with a have m: "merged = ?M" by simp
  have e: "replicate (length (filter fullRow ?M)) (replicate (nat GRID_WIDTH) Null) @
             filter (\<lambda>r. \<not> fullRow r) ?M = ?C"
    "nextTetromino ?S = randomTetromino KeyT"
    "(GRID_WIDTH - int (length (hd (shape (randomTetromino KeyT))))) div 2 = 3"
    "canPlaceTetromino ?C (randomTetromino KeyT) 3 0 = Inr True"
    "jsAdd (score ?S) (int (length (filter fullRow ?M)) * 100) = 900"
    by code_simp+
  from b have cl: "cleared = ?C" unfolding m e .
  from c have "ok" unfolding cl e by simp
  with u have r1: "updateState KeyI ?S Tick =
     Some (Inr \<lparr>board = ?C,
               currentBlock = \<lparr>tetromino = randomTetromino KeyT, x = 3, y = 0\<rparr>,
               nextTetromino = randomTetromino KeyI, gameOver = False, score = 900\<rparr>)"
    unfolding m cl e by simp
  let ?T = "blockedState"
  let ?N = "[[Null, Null, Null, Null, Color ''yellow'', Color ''yellow'', Null, Null, Null, Null],
            [Null, Null, Null, Null, Color ''yellow'', Color ''yellow'', Null, Null, Null, Null],
            [Null, Null, Null, Null, Color ''red'', Null, Null, Null, Null, Null]] @
           replicate 17 (replicate 10 Null)"
  have g1: "\<not> gameOver ?T" by (simp add: blockedState_def)
  have g2: "wfBoard (board ?T)" by code_simp
  have g3: "shape (nextTetromino ?T) \<noteq> []" by code_simp
  have g4: "canPlaceTetromino (board ?T) (tetromino (currentBlock ?T))
              (x (currentBlock ?T)) (y (currentBlock ?T) + 1) = Inr False"
    by code_simp
  have g5: "Down = Tick \<or> Down = Down" by simp
  from updateState_lock [OF g1 g2 g3 g4 g5, of KeyI] obtain merged' cleared' ok' where
    a': "mergeTetromino (board ?T) (currentBlock ?T) = Inr merged'" and
    b': "cleared' =
          replicate (length (filter fullRow merged')) (replicate (nat GRID_WIDTH) Null) @
          filter (\<lambda>r. \<not> fullRow r) merged'" and
    c': "canPlaceTetromino cleared' (nextTetromino ?T)
          ((GRID_WIDTH - int (length (hd (shape (nextTetromino ?T))))) div 2) 0 = Inr ok'" and
    u': "updateState KeyI ?T Down =
          Some (Inr \<lparr>board = cleared',
                  currentBlock =
                    \<lparr>tetromino = nextTetromino ?T,
                     x = (GRID_WIDTH - int (length (hd (shape (nextTetromino ?T))))) div 2,
                     y = 0\<rparr>,
                  nextTetromino = randomTetromino KeyI,
                  gameOver = (\<not> ok'),
                  score = jsAdd (score ?T) (int (length (filter fullRow merged')) * 100)\<rparr>)"
    by (elim exE conjE) (rule that)
  have "mergeTetromino (board ?T) (currentBlock ?T) = Inr ?N" by code_simp
  with a' have m': "merged' = ?N" by simp
  have e': "replicate (length (filter fullRow ?N)) (replicate (nat GRID_WIDTH) Null) @
             filter (\<lambda>r. \<not> fullRow r) ?N = ?N"
    "nextTetromino ?T = randomTetromino KeyT"
    "(GRID_WIDTH - int (length (hd (shape (randomTetromino KeyT))))) div 2 = 3"
    "canPlaceTetromino ?N (randomTetromino KeyT) 3 0 = Inr False"
    "jsAdd (score ?T) (int (length (filter fullRow ?N)) * 100) = 300"
    by code_simp+
  from b' have cl': "cleared' = ?N" unfolding m' e' .
  from c' have "\<not> ok'" unfolding cl' e' by simp
  with u' have r2: "updateState KeyI ?T Down =
     Some (Inr \<lparr>board = ?N,
               currentBlock = \<lparr>tetromino = randomTetromino KeyT, x = 3, y = 0\<rparr>,
               nextTetromino = randomTetromino KeyI, gameOver = True, score = 300\<rparr>)"
    unfolding m' cl' e' by simp
  from h1 h2 h3 h4 r1 g1 g2 g3 g4 r2 show ?thesis by (intro conjI)
qed

text \<open>
  The claim as it was stated, with a score that grows by exactly 100 times the rows
  cleared in every state, fails where the sum is not a double: at the score
  \<open>2^53 - 1 = 9007199254740991\<close> a lock that clears two rows gives the score
  \<open>9007199254741192\<close>, one more than \<open>9007199254740991 + 200\<close>.
\<close>

theorem updateState_lock_counterexample:
  "\<not> gameOver (landedState 9007199254740991) \<and>
   canPlaceTetromino (board (landedState 9007199254740991))
     (tetromino (currentBlock (landedState 9007199254740991)))
     (x (currentBlock (landedState 9007199254740991)))
     (y (currentBlock (landedState 9007199254740991)) + 1) = Inr False \<and>
   snd (clearRows (boardWithBottom
        [[Color ''blue'', Null, Null, Null, Null, Null, Null, Null, Null, Null],
         [Color ''red'', Color ''red'', Color ''red'', Color ''red'', Color ''yellow'',
          Color ''yellow'', Color ''red'', Color ''red'', Color ''red'', Color ''red''],
         [Color ''red'', Color ''red'', Color ''red'', Color ''red'', Color ''yellow'',
          Color ''yellow'', Color ''red'', Color ''red'', Color ''red'', Color ''red'']])) = 2 \<and>
   updateState KeyI (landedState 9007199254740991) Tick =
     Some (Inr \<lparr>board = boardWithBottom
                  [[Color ''blue'', Null, Null, Null, Null, Null, Null, Null, Null, Null]],
               currentBlock = \<lparr>tetromino = randomTetromino KeyT, x = 3, y = 0\<rparr>,
               nextTetromino = randomTetromino KeyI, gameOver = False,
               score = 9007199254741192\<rparr>) \<and>
   (9007199254741192 :: int) \<noteq> 9007199254740991 + 2 * 100"
  by code_simp

text \<open>
  C6. In a state with \<open>gameOver\<close> set, \<open>updateState\<close> returns the state unchanged, for
  every action, the unrecognised ones included, and whatever key a random draw would give.
\<close>

theorem updateState_gameOver:
  "gameOver state \<Longrightarrow> updateState randKey state action = Some (Inr state)"
  by (simp add: updateState_def)

theorem updateState_gameOver_witness:
  "gameOver \<lparr>board = createEmptyBoard,
             currentBlock = \<lparr>tetromino = TETROMINOES KeyO, x = 4, y = 0\<rparr>,
             nextTetromino = TETROMINOES KeyT, gameOver = True, score = 300\<rparr> \<and>
   updateState KeyI
     \<lparr>board = createEmptyBoard,
      currentBlock = \<lparr>tetromino = TETROMINOES KeyO, x = 4, y = 0\<rparr>,
      nextTetromino = TETROMINOES KeyT, gameOver = True, score = 300\<rparr> Drop =
   Some (Inr \<lparr>board = createEmptyBoard,
             currentBlock = \<lparr>tetromino = TETROMINOES KeyO, x = 4, y = 0\<rparr>,
             nextTetromino = TETROMINOES KeyT, gameOver = True, score = 300\<rparr>)"
  using updateState_gameOver [of "\<lparr>board = createEmptyBoard,
             currentBlock = \<lparr>tetromino = TETROMINOES KeyO, x = 4, y = 0\<rparr>,
             nextTetromino = TETROMINOES KeyT, gameOver = True, score = 300\<rparr>" KeyI Drop]
  by simp

text \<open>
  C8. When the placement that a \<open>left\<close>, \<open>right\<close> or \<open>rotate\<close> action tests is
  invalid (\<open>canPlaceTetromino\<close> returns false at \<open>x - 1\<close>, at \<open>x + 1\<close>, or at the same
  \<open>(x, y)\<close> with the rotated shape), \<open>updateState\<close> returns the input state itself: no
  error, and for a rotation no other offset is tried.
\<close>

theorem updateState_rejected_move:
  "(canPlaceTetromino (board state) (tetromino (currentBlock state))
      (x (currentBlock state) - 1) (y (currentBlock state)) = Inr False
    \<longrightarrow> updateState randKey state Left = Some (Inr state)) \<and>
   (canPlaceTetromino (board state) (tetromino (currentBlock state))
      (x (currentBlock state) + 1) (y (currentBlock state)) = Inr False
    \<longrightarrow> updateState randKey state Right = Some (Inr state)) \<and>
   (\<forall>rotatedShape.
      rotate_matrix (shape (tetromino (currentBlock state))) = Inr rotatedShape \<and>
      canPlaceTetromino (board state) ((tetromino (currentBlock state))\<lparr>shape := rotatedShape\<rparr>)
        (x (currentBlock state)) (y (currentBlock state)) = Inr False
    \<longrightarrow> updateState randKey state Rotate = Some (Inr state))"
  by (auto simp: updateState_def Let_def)

theorem updateState_rejected_move_witness:
  "canPlaceTetromino createEmptyBoard (TETROMINOES KeyO) (0 - 1) 5 = Inr False \<and>
   updateState KeyI (emptyBoardState \<lparr>tetromino = TETROMINOES KeyO, x = 0, y = 5\<rparr>
                      (TETROMINOES KeyT)) Left =
     Some (Inr (emptyBoardState \<lparr>tetromino = TETROMINOES KeyO, x = 0, y = 5\<rparr>
                  (TETROMINOES KeyT))) \<and>
   canPlaceTetromino createEmptyBoard (TETROMINOES KeyO) (8 + 1) 5 = Inr False \<and>
   updateState KeyI (emptyBoardState \<lparr>tetromino = TETROMINOES KeyO, x = 8, y = 5\<rparr>
                      (TETROMINOES KeyT)) Right =
     Some (Inr (emptyBoardState \<lparr>tetromino = TETROMINOES KeyO, x = 8, y = 5\<rparr>
                  (TETROMINOES KeyT))) \<and>
   rotate_matrix (shape (TETROMINOES KeyI)) =
     Inr [[Num 0, Num 0, Num 1, Num 0], [Num 0, Num 0, Num 1, Num 0],
          [Num 0, Num 0, Num 1, Num 0], [Num 0, Num 0, Num 1, Num 0]] \<and>
   canPlaceTetromino createEmptyBoard
     ((TETROMINOES KeyI)\<lparr>shape :=
        [[Num 0, Num 0, Num 1, Num 0], [Num 0, Num 0, Num 1, Num 0],
         [Num 0, Num 0, Num 1, Num 0], [Num 0, Num 0, Num 1, Num 0]]\<rparr>) 3 17 = Inr False \<and>
   updateState KeyI (emptyBoardState \<lparr>tetromino = TETROMINOES KeyI, x = 3, y = 17\<rparr>
                      (TETROMINOES KeyT)) Rotate =
     Some (Inr (emptyBoardState \<lparr>tetromino = TETROMINOES KeyI, x = 3, y = 17\<rparr>
                  (TETROMINOES KeyT)))"
proof -
  have l: "canPlaceTetromino createEmptyBoard (TETROMINOES KeyO) (0 - 1) 5 = Inr False"
    by code_simp
  have r: "canPlaceTetromino createEmptyBoard (TETROMINOES KeyO) (8 + 1) 5 = Inr False"
    by code_simp
  have t: "rotate_matrix (shape (TETROMINOES KeyI)) =
     Inr [[Num 0, Num 0, Num 1, Num 0], [Num 0, Num 0, Num 1, Num 0],
          [Num 0, Num 0, Num 1, Num 0], [Num 0, Num 0, Num 1, Num 0]]"
    by code_simp
  have c: "canPlaceTetromino createEmptyBoard
     ((TETROMINOES KeyI)\<lparr>shape :=
        [[Num 0, Num 0, Num 1, Num 0], [Num 0, Num 0, Num 1, Num 0],
         [Num 0, Num 0, Num 1, Num 0], [Num 0, Num 0, Num 1, Num 0]]\<rparr>) 3 17 = Inr False"
    by code_simp
  show ?thesis
    using l r t c
      updateState_rejected_move [of "emptyBoardState \<lparr>tetromino = TETROMINOES KeyO, x = 0, y = 5\<rparr>
                      (TETROMINOES KeyT)" KeyI]
      updateState_rejected_move [of "emptyBoardState \<lparr>tetromino = TETROMINOES KeyO, x = 8, y = 5\<rparr>
                      (TETROMINOES KeyT)" KeyI]
      updateState_rejected_move [of "emptyBoardState \<lparr>tetromino = TETROMINOES KeyI, x = 3, y = 17\<rparr>
                      (TETROMINOES KeyT)" KeyI]
    by (simp add: emptyBoardState_def)
qed

section \<open>The invariant of the active block\<close>

lemma wfShape_cell:
  assumes "wfShape m"
  obtains i j where "i < length m" "j < length (m ! i)" "truthy (m ! i ! j)"
proof -
  from assms obtain r c where "r \<in> set m" "c \<in> set r" "truthy c"
    by (auto simp: wfShape_def)
  then obtain i j where "i < length m" "m ! i = r" "j < length r" "r ! j = c"
    by (auto simp: in_set_conv_nth)
  with \<open>truthy c\<close> that show thesis by auto
qed

lemma wfShape_rotate:
  assumes "wfShape m"
  shows "\<exists>r. rotate_matrix m = Inr r \<and> wfShape r"
proof -
  from assms have ne: "m \<noteq> []" and rect: "\<forall>r\<in>set m. length r = length (hd m)"
    unfolding wfShape_def by blast+
  from wfShape_cell [OF assms] obtain i j where
    ij: "i < length m" "j < length (m ! i)" "truthy (m ! i ! j)" by blast
  from ij(1) rect have "length (m ! i) = length (hd m)" by simp
  with ij have j: "j < length (hd m)" by simp
  from rotate_matrix_rect [OF ne rect] obtain r where
    r: "rotate_matrix m = Inr r" and lr: "length r = length (hd m)" and
    rows: "\<And>j. j < length (hd m) \<Longrightarrow> length (r ! j) = length m" and
    cells: "\<And>i j. i < length m \<Longrightarrow> j < length (hd m) \<Longrightarrow>
              r ! j ! (length m - 1 - i) = m ! i ! j"
    by blast
  from lr j have rne: "r \<noteq> []" by auto
  have all: "length q = length m" if "q \<in> set r" for q
  proof -
    from that obtain a where "a < length r" "r ! a = q" by (auto simp: in_set_conv_nth)
    with rows [of a] lr show ?thesis by simp
  qed
  from rne have "hd r \<in> set r" by simp
  then have "length (hd r) = length m" by (rule all)
  with all have rect': "\<forall>q\<in>set r. length q = length (hd r)" by simp
  from lr j have 1: "r ! j \<in> set r" by simp
  from rows [OF j] ij(1) have "length m - 1 - i < length (r ! j)" by simp
  then have 2: "r ! j ! (length m - 1 - i) \<in> set (r ! j)" by simp
  from cells [OF ij(1) j] ij(3) have 3: "truthy (r ! j ! (length m - 1 - i))" by simp
  from 1 2 3 have "\<exists>q\<in>set r. \<exists>c\<in>set q. truthy c" by blast
  with rne rect' have "wfShape r" unfolding wfShape_def by blast
  with r show ?thesis by blast
qed

lemma wfShape_catalog: "wfShape (shape (randomTetromino k))"
  by (cases k) (simp_all add: wfShape_def randomTetromino_def deepCopy_def)

lemma canPlaceTetromino_below:
  assumes "wfBoard b" "i < length (shape t)" "j < length (shape t ! i)"
    "truthy (shape t ! i ! j)" "GRID_HEIGHT \<le> py + int i"
  shows "canPlaceTetromino b t px py = Inr False"
proof -
  from assms(5) have "\<not> cellFree b (px + int j) (py + int i)"
    by (simp add: cellFree_def)
  with assms(2-4) show ?thesis
    unfolding canPlaceTetromino_wf [OF assms(1)] by auto
qed

lemma dropLoop_terminates:
  assumes "wfBoard b" "wfShape (shape t)"
  shows "\<exists>restY. dropLoop b t bx dropY = Some (Inr restY)"
proof -
  from wfShape_cell [OF assms(2)] obtain i j where
    ij: "i < length (shape t)" "j < length (shape t ! i)" "truthy (shape t ! i ! j)"
    by blast
  show ?thesis
  proof (induction "nat (GRID_HEIGHT - int i - dropY)" arbitrary: dropY)
    case 0
    then have "GRID_HEIGHT \<le> (dropY + 1) + int i" by simp
    from canPlaceTetromino_below [OF assms(1) ij this]
    show ?case by (subst dropLoop.simps) simp
  next
    case (Suc n)
    from canPlaceTetromino_total [OF assms(1)] obtain ok where
      ok: "canPlaceTetromino b t bx (dropY + 1) = Inr ok" by blast
    show ?case
    proof (cases ok)
      case False
      with ok show ?thesis by (subst dropLoop.simps) simp
    next
      case True
      from Suc.hyps(2) have "n = nat (GRID_HEIGHT - int i - (dropY + 1))" by simp
      from Suc.hyps(1) [OF this] obtain restY where
        "dropLoop b t bx (dropY + 1) = Some (Inr restY)" by blast
      with ok True show ?thesis by (subst dropLoop.simps) simp
    qed
  qed
qed

lemma wfShape_nonempty: "wfShape m \<Longrightarrow> m \<noteq> []"
  unfolding wfShape_def by blast

lemma spawn_on_empty:
  "canPlaceTetromino createEmptyBoard (randomTetromino k)
     ((GRID_WIDTH - int (length (hd (shape (randomTetromino k))))) div 2) 0 = Inr True"
  by (cases k) (hypsubst, code_simp)+

lemma initialState_inv: "\<exists>s0. initialState k1 k2 = Inr s0 \<and> stateInv s0"
proof -
  have "spawnNewBlock createEmptyBoard (randomTetromino k1) =
          Inr \<lparr>tetromino = randomTetromino k1,
               x = (GRID_WIDTH - int (length (hd (shape (randomTetromino k1))))) div 2,
               y = 0\<rparr>"
    by (rule spawnNewBlock_nonempty [OF wfShape_nonempty [OF wfShape_catalog]])
  then show ?thesis
    using wfShape_catalog [of k1] wfShape_catalog [of k2] spawn_on_empty [of k1]
      wfBoard_createEmptyBoard
    by (simp add: initialState_def stateInv_def)
qed

lemma lockBlock_inv:
  assumes "stateInv s"
  shows "\<exists>s'. lockBlock k s blk = Inr s' \<and> stateInv s'"
proof -
  from assms have w: "wfBoard (board s)" and n: "wfShape (shape (nextTetromino s))"
    by (simp_all add: stateInv_def)
  from lockBlock_wf [OF w wfShape_nonempty [OF n], of blk k] obtain merged ok where
    m: "wfBoard merged" and
    c: "canPlaceTetromino (fst (clearRows merged)) (nextTetromino s)
          ((GRID_WIDTH - int (length (hd (shape (nextTetromino s))))) div 2) 0 = Inr ok" and
    l: "lockBlock k s blk =
             Inr \<lparr>board = fst (clearRows merged),
                  currentBlock =
                    \<lparr>tetromino = nextTetromino s,
                     x = (GRID_WIDTH - int (length (hd (shape (nextTetromino s))))) div 2,
                     y = 0\<rparr>,
                  nextTetromino = randomTetromino k,
                  gameOver = (\<not> ok),
                  score = jsAdd (score s) (int (length (filter fullRow merged)) * 100)\<rparr>"
    by blast
  show ?thesis
    unfolding l using clearRows_wf [OF m] n c wfShape_catalog [of k]
    by (simp add: stateInv_def)
qed

lemma updateState_inv:
  assumes "stateInv s"
  shows "\<exists>s'. updateState k s a = Some (Inr s') \<and> stateInv s'"
proof (cases "gameOver s")
  case True
  with assms show ?thesis by (simp add: updateState_def)
next
  case False
  from assms have w: "wfBoard (board s)"
    and c: "wfShape (shape (tetromino (currentBlock s)))"
    and n: "wfShape (shape (nextTetromino s))"
    by (simp_all add: stateInv_def)
  have move: "\<exists>s'. (case canPlaceTetromino (board s) (tetromino blk) (x blk) (y blk) of
                      Inl e \<Rightarrow> Inl e
                    | Inr ok \<Rightarrow> if ok then Inr (s\<lparr>currentBlock := blk\<rparr>) else Inr s) = Inr s' \<and>
                   stateInv s'"
    if "wfShape (shape (tetromino blk))" for blk
  proof -
    from canPlaceTetromino_total [OF w] obtain ok where
      ok: "canPlaceTetromino (board s) (tetromino blk) (x blk) (y blk) = Inr ok" by blast
    with assms that n w show ?thesis by (cases ok) (simp_all add: stateInv_def)
  qed
  show ?thesis
  proof (cases a)
    case Tick
    from canPlaceTetromino_total [OF w] obtain ok where
      ok: "canPlaceTetromino (board s) (tetromino (currentBlock s)) (x (currentBlock s))
             (y (currentBlock s) + 1) = Inr ok" by blast
    show ?thesis
    proof (cases ok)
      case True
      with ok False Tick w c n show ?thesis
        by (simp add: updateState_def tickOrDown_def Let_def stateInv_def)
    next
      case nok: False
      with ok False Tick lockBlock_inv [OF assms, of k "currentBlock s"] show ?thesis
        by (simp add: updateState_def tickOrDown_def Let_def)
    qed
  next
    case Down
    from canPlaceTetromino_total [OF w] obtain ok where
      ok: "canPlaceTetromino (board s) (tetromino (currentBlock s)) (x (currentBlock s))
             (y (currentBlock s) + 1) = Inr ok" by blast
    show ?thesis
    proof (cases ok)
      case True
      with ok False Down w c n show ?thesis
        by (simp add: updateState_def tickOrDown_def Let_def stateInv_def)
    next
      case nok: False
      with ok False Down lockBlock_inv [OF assms, of k "currentBlock s"] show ?thesis
        by (simp add: updateState_def tickOrDown_def Let_def)
    qed
  next
    case Left
    from move [of "(currentBlock s)\<lparr>x := x (currentBlock s) - 1\<rparr>"] c False Left
    show ?thesis by (simp add: updateState_def Let_def)
  next
    case Right
    from move [of "(currentBlock s)\<lparr>x := x (currentBlock s) + 1\<rparr>"] c False Right
    show ?thesis by (simp add: updateState_def Let_def)
  next
    case Rotate
    from wfShape_rotate [OF c] obtain r where
      r: "rotate_matrix (shape (tetromino (currentBlock s))) = Inr r" "wfShape r" by blast
    from move [of "(currentBlock s)\<lparr>tetromino := (tetromino (currentBlock s))\<lparr>shape := r\<rparr>\<rparr>"]
      r False Rotate
    show ?thesis by (simp add: updateState_def Let_def)
  next
    case Drop
    from dropLoop_terminates [OF w c] obtain restY where
      "dropLoop (board s) (tetromino (currentBlock s)) (x (currentBlock s))
         (y (currentBlock s)) = Some (Inr restY)" by blast
    with False Drop lockBlock_inv [OF assms, of k "(currentBlock s)\<lparr>y := restY\<rparr>"]
    show ?thesis by (simp add: updateState_def Let_def)
  next
    case (Other name)
    with False assms show ?thesis by (simp add: updateState_def Let_def)
  qed
qed

lemma run_inv:
  assumes "stateInv s"
  shows "\<exists>s'. run steps s = Some (Inr s') \<and> stateInv s'"
  using assms
proof (induction steps arbitrary: s)
  case Nil
  then show ?case by simp
next
  case (Cons step steps)
  obtain k a where step: "step = (k, a)" by (cases step)
  from updateState_inv [OF Cons.prems, of k a] obtain s1 where
    "updateState k s a = Some (Inr s1)" "stateInv s1" by blast
  with Cons.IH [of s1] step show ?case by simp
qed

text \<open>
  C4. From every initial state, every sequence of actions (with whatever keys the random
  draws give) runs without a throw and to its end, and in the state it reaches the active
  block is validly placed unless the game is over.
\<close>

theorem active_block_valid:
  "\<exists>s0 s. initialState k1 k2 = Inr s0 \<and> run steps s0 = Some (Inr s) \<and>
      (\<not> gameOver s \<longrightarrow>
         canPlaceTetromino (board s) (tetromino (currentBlock s))
           (x (currentBlock s)) (y (currentBlock s)) = Inr True)"
proof -
  from initialState_inv obtain s0 where s0: "initialState k1 k2 = Inr s0" "stateInv s0"
    by blast
  from run_inv [OF s0(2)] obtain s where "run steps s0 = Some (Inr s)" "stateInv s"
    by blast
  with s0 show ?thesis unfolding stateInv_def by blast
qed

theorem active_block_valid_witness:
  "\<exists>s0 s. initialState KeyT KeyO = Inr s0 \<and>
     run [(KeyI, Left), (KeyI, Rotate), (KeyS, Drop), (KeyZ, Tick)] s0 = Some (Inr s) \<and>
     \<not> gameOver s \<and>
     canPlaceTetromino (board s) (tetromino (currentBlock s))
       (x (currentBlock s)) (y (currentBlock s)) = Inr True"
proof -
  from active_block_valid [of KeyT KeyO "[(KeyI, Left), (KeyI, Rotate), (KeyS, Drop), (KeyZ, Tick)]"]
  obtain s0 s where
    i: "initialState KeyT KeyO = Inr s0" and
    r: "run [(KeyI, Left), (KeyI, Rotate), (KeyS, Drop), (KeyZ, Tick)] s0 = Some (Inr s)" and
    v: "\<not> gameOver s \<longrightarrow>
         canPlaceTetromino (board s) (tetromino (currentBlock s))
           (x (currentBlock s)) (y (currentBlock s)) = Inr True"
    by blast
  have "(case initialState KeyT KeyO of
           Inr s0' \<Rightarrow>
             (case run [(KeyI, Left), (KeyI, Rotate), (KeyS, Drop), (KeyZ, Tick)] s0' of
                Some (Inr s') \<Rightarrow> gameOver s' | _ \<Rightarrow> True)
         | Inl e \<Rightarrow> True) = False"
    by code_simp
  with i r have "\<not> gameOver s" by simp
  with i r v show ?thesis by blast
qed

section \<open>Scenarios\<close>

lemma initialState_scenarioA: "initialState KeyO k2 = Inr (scenarioA k2)"
  by (simp add: initialState_def scenarioA_def emptyBoardState_def spawnNewBlock_def
      randomTetromino_def deepCopy_def GRID_WIDTH_def)

lemma initialState_scenarioD: "initialState KeyT k2 = Inr (scenarioD k2)"
  by (simp add: initialState_def scenarioD_def emptyBoardState_def spawnNewBlock_def
      randomTetromino_def deepCopy_def GRID_WIDTH_def)

lemma createEmptyBoard_nth:
  assumes "inGrid c r"
  shows "createEmptyBoard ! nat r ! nat c = Null"
proof -
  from assms have "nat r < 20" "nat c < 10"
    unfolding inGrid_def GRID_WIDTH_def GRID_HEIGHT_def by linarith+
  then show ?thesis
    by (simp add: createEmptyBoard_def GRID_WIDTH_def GRID_HEIGHT_def)
qed

lemma canPlace_O_empty:
  assumes "0 \<le> py" "py \<le> 18"
  shows "canPlaceTetromino createEmptyBoard (randomTetromino KeyO) 4 py = Inr True"
proof -
  have "cellFree createEmptyBoard (4 + int j) (py + int i)" if "i < 2" "j < 2" for i j
  proof -
    from that assms have "inGrid (4 + int j) (py + int i)"
      by (simp add: inGrid_def GRID_WIDTH_def GRID_HEIGHT_def)
    from createEmptyBoard_nth [OF this] this show ?thesis
      by (simp add: cellFree_def inGrid_def)
  qed
  from this [of 0 0] this [of 0 1] this [of 1 0] this [of 1 1] show ?thesis
    unfolding canPlaceTetromino_wf [OF wfBoard_createEmptyBoard]
    by (auto simp: randomTetromino_def deepCopy_def less_Suc_eq)
qed

lemma tick_O_falls:
  assumes "0 \<le> py" "py < 18"
  shows "updateState k (emptyBoardState \<lparr>tetromino = randomTetromino KeyO, x = 4, y = py\<rparr> nxt)
           Tick =
         Some (Inr (emptyBoardState \<lparr>tetromino = randomTetromino KeyO, x = 4, y = py + 1\<rparr> nxt))"
  using canPlace_O_empty [of "py + 1"] assms
  by (simp add: updateState_def tickOrDown_def emptyBoardState_def Let_def)

lemma run_ticks_O:
  assumes "0 \<le> py" "py + int n \<le> 18"
  shows "run (replicate n (k, Tick))
           (emptyBoardState \<lparr>tetromino = randomTetromino KeyO, x = 4, y = py\<rparr> nxt) =
         Some (Inr (emptyBoardState
                      \<lparr>tetromino = randomTetromino KeyO, x = 4, y = py + int n\<rparr> nxt))"
  using assms
proof (induction n arbitrary: py)
  case 0
  show ?case by simp
next
  case (Suc n)
  from Suc.prems have "0 \<le> py" "py < 18" "0 \<le> py + 1" "py + 1 + int n \<le> 18" by simp_all
  from tick_O_falls [OF this(1,2)] Suc.IH [OF this(3,4)] show ?case
    by (simp add: add.assoc add.left_commute)
qed

lemma spawn_after_O:
  "canPlaceTetromino
     (boardWithBottom
        [[Null, Null, Null, Null, Color ''yellow'', Color ''yellow'', Null, Null, Null, Null],
         [Null, Null, Null, Null, Color ''yellow'', Color ''yellow'', Null, Null, Null, Null]])
     (randomTetromino k2)
     ((GRID_WIDTH - int (length (hd (shape (randomTetromino k2))))) div 2) 0 = Inr True"
  by (cases k2) (hypsubst, code_simp)+

lemma lock_O:
  "updateState k' (emptyBoardState \<lparr>tetromino = randomTetromino KeyO, x = 4, y = 18\<rparr>
                     (randomTetromino k2)) Tick =
   Some (Inr \<lparr>board = boardWithBottom
                [[Null, Null, Null, Null, Color ''yellow'', Color ''yellow'', Null, Null, Null, Null],
                 [Null, Null, Null, Null, Color ''yellow'', Color ''yellow'', Null, Null, Null, Null]],
             currentBlock =
               \<lparr>tetromino = randomTetromino k2,
                x = (GRID_WIDTH - int (length (hd (shape (randomTetromino k2))))) div 2,
                y = 0\<rparr>,
             nextTetromino = randomTetromino k', gameOver = False, score = 0\<rparr>)"
proof -
  have c: "canPlaceTetromino createEmptyBoard (randomTetromino KeyO) 4 (18 + 1) = Inr False"
    by code_simp
  have m: "mergeTetromino createEmptyBoard \<lparr>tetromino = randomTetromino KeyO, x = 4, y = 18\<rparr> =
      Inr (boardWithBottom
        [[Null, Null, Null, Null, Color ''yellow'', Color ''yellow'', Null, Null, Null, Null],
         [Null, Null, Null, Null, Color ''yellow'', Color ''yellow'', Null, Null, Null, Null]])"
    by code_simp
  have r: "clearRows (boardWithBottom
        [[Null, Null, Null, Null, Color ''yellow'', Color ''yellow'', Null, Null, Null, Null],
         [Null, Null, Null, Null, Color ''yellow'', Color ''yellow'', Null, Null, Null, Null]]) =
      (boardWithBottom
        [[Null, Null, Null, Null, Color ''yellow'', Color ''yellow'', Null, Null, Null, Null],
         [Null, Null, Null, Null, Color ''yellow'', Color ''yellow'', Null, Null, Null, Null]], 0)"
    by code_simp
  note s = spawnNewBlock_nonempty [OF wfShape_nonempty [OF wfShape_catalog [of k2]]]
  show ?thesis
    using c m r spawn_after_O [of k2]
    by (simp add: updateState_def tickOrDown_def lockBlock_def emptyBoardState_def Let_def s
          jsAdd_exact)
qed

lemma run_append:
  "run (xs @ ys) s = (case run xs s of Some (Inr s') \<Rightarrow> run ys s' | r \<Rightarrow> r)"
  by (induction xs arbitrary: s) (auto split: option.splits sum.splits)

text \<open>
  C9 (as amended). On the empty board with an \<open>O\<close> piece spawned at \<open>y = 0\<close>, every
  run of \<open>n \<le> 18\<close> ticks leaves the board empty and the block, unlocked, at \<open>y = n\<close>:
  18 ticks take it from \<open>y = 0\<close> to \<open>y = 18\<close>, where its lower occupied row is on board
  row 19. The next tick, the 19th, locks it into the two bottom rows, spawns the queued
  piece and draws a new preview.
\<close>

theorem scenario_A:
  "initialState KeyO k2 = Inr (scenarioA k2) \<and>
   board (scenarioA k2) = createEmptyBoard \<and>
   currentBlock (scenarioA k2) = \<lparr>tetromino = randomTetromino KeyO, x = 4, y = 0\<rparr> \<and>
   (n \<le> 18 \<longrightarrow>
      run (replicate n (k, Tick)) (scenarioA k2) =
        Some (Inr ((scenarioA k2)\<lparr>currentBlock := (currentBlock (scenarioA k2))\<lparr>y := int n\<rparr>\<rparr>))) \<and>
   run (replicate 18 (k, Tick) @ [(k', Tick)]) (scenarioA k2) =
     Some (Inr \<lparr>board = boardWithBottom
                  [[Null, Null, Null, Null, Color ''yellow'', Color ''yellow'', Null, Null, Null, Null],
                   [Null, Null, Null, Null, Color ''yellow'', Color ''yellow'', Null, Null, Null, Null]],
               currentBlock =
                 \<lparr>tetromino = randomTetromino k2,
                  x = (GRID_WIDTH - int (length (hd (shape (randomTetromino k2))))) div 2,
                  y = 0\<rparr>,
               nextTetromino = randomTetromino k', gameOver = False, score = 0\<rparr>)"
proof -
  have f: "run (replicate n (k, Tick)) (scenarioA k2) =
        Some (Inr ((scenarioA k2)\<lparr>currentBlock := (currentBlock (scenarioA k2))\<lparr>y := int n\<rparr>\<rparr>))"
    if "n \<le> 18" for n
    using run_ticks_O [of 0 n k "randomTetromino k2"] that
    by (simp add: scenarioA_def emptyBoardState_def)
  from f [of 18] lock_O [of k' k2]
  have "run (replicate 18 (k, Tick) @ [(k', Tick)]) (scenarioA k2) =
     Some (Inr \<lparr>board = boardWithBottom
                  [[Null, Null, Null, Null, Color ''yellow'', Color ''yellow'', Null, Null, Null, Null],
                   [Null, Null, Null, Null, Color ''yellow'', Color ''yellow'', Null, Null, Null, Null]],
               currentBlock =
                 \<lparr>tetromino = randomTetromino k2,
                  x = (GRID_WIDTH - int (length (hd (shape (randomTetromino k2))))) div 2,
                  y = 0\<rparr>,
               nextTetromino = randomTetromino k', gameOver = False, score = 0\<rparr>)"
    by (simp add: run_append scenarioA_def emptyBoardState_def)
  with f [of n] initialState_scenarioA [of k2] show ?thesis
    by (simp add: scenarioA_def emptyBoardState_def)
qed

theorem scenario_A_witness:
  "(18::nat) \<le> 18 \<and>
   run (replicate 18 (KeyI, Tick)) (scenarioA KeyT) =
     Some (Inr ((scenarioA KeyT)\<lparr>currentBlock := (currentBlock (scenarioA KeyT))\<lparr>y := 18\<rparr>\<rparr>))"
  using scenario_A [of KeyT 18 KeyI KeyI] by simp

theorem scenario_A_counterexample:
  "run (replicate 19 (KeyI, Tick)) (scenarioA KeyT) \<noteq>
     Some (Inr ((scenarioA KeyT)\<lparr>currentBlock := (currentBlock (scenarioA KeyT))\<lparr>y := 18\<rparr>\<rparr>)) \<and>
   run (replicate 19 (KeyI, Tick)) (scenarioA KeyT) =
     Some (Inr \<lparr>board = boardWithBottom
                  [[Null, Null, Null, Null, Color ''yellow'', Color ''yellow'', Null, Null, Null, Null],
                   [Null, Null, Null, Null, Color ''yellow'', Color ''yellow'', Null, Null, Null, Null]],
               currentBlock = \<lparr>tetromino = randomTetromino KeyT, x = 3, y = 0\<rparr>,
               nextTetromino = randomTetromino KeyI, gameOver = False, score = 0\<rparr>)"
  by code_simp

lemma spawn_after_T:
  "canPlaceTetromino
     (boardWithBottom
        [[Null, Null, Null, Null, Color ''purple'', Null, Null, Null, Null, Null],
         [Null, Null, Null, Color ''purple'', Color ''purple'', Color ''purple'', Null, Null, Null, Null]])
     (randomTetromino k2)
     ((GRID_WIDTH - int (length (hd (shape (randomTetromino k2))))) div 2) 0 = Inr True"
  by (cases k2) (hypsubst, code_simp)+

lemma dropLoop_T: "dropLoop createEmptyBoard (randomTetromino KeyT) 3 0 = Some (Inr 18)"
  by code_simp

lemma lock_T:
  "lockBlock k (emptyBoardState blk (randomTetromino k2))
     \<lparr>tetromino = randomTetromino KeyT, x = 3, y = 18\<rparr> =
   Inr \<lparr>board = boardWithBottom
          [[Null, Null, Null, Null, Color ''purple'', Null, Null, Null, Null, Null],
           [Null, Null, Null, Color ''purple'', Color ''purple'', Color ''purple'', Null, Null, Null, Null]],
        currentBlock =
          \<lparr>tetromino = randomTetromino k2,
           x = (GRID_WIDTH - int (length (hd (shape (randomTetromino k2))))) div 2,
           y = 0\<rparr>,
        nextTetromino = randomTetromino k, gameOver = False, score = 0\<rparr>"
proof -
  have m: "mergeTetromino createEmptyBoard \<lparr>tetromino = randomTetromino KeyT, x = 3, y = 18\<rparr> =
      Inr (boardWithBottom
        [[Null, Null, Null, Null, Color ''purple'', Null, Null, Null, Null, Null],
         [Null, Null, Null, Color ''purple'', Color ''purple'', Color ''purple'', Null, Null, Null, Null]])"
    by code_simp
  have r: "clearRows (boardWithBottom
        [[Null, Null, Null, Null, Color ''purple'', Null, Null, Null, Null, Null],
         [Null, Null, Null, Color ''purple'', Color ''purple'', Color ''purple'', Null, Null, Null, Null]]) =
      (boardWithBottom
        [[Null, Null, Null, Null, Color ''purple'', Null, Null, Null, Null, Null],
         [Null, Null, Null, Color ''purple'', Color ''purple'', Color ''purple'', Null, Null, Null, Null]], 0)"
    by code_simp
  note s = spawnNewBlock_nonempty [OF wfShape_nonempty [OF wfShape_catalog [of k2]]]
  show ?thesis
    using m r spawn_after_T [of k2]
    by (simp add: lockBlock_def emptyBoardState_def Let_def s jsAdd_exact)
qed

text \<open>
  C10 (as amended). On the empty board, one \<open>drop\<close> action takes a \<open>T\<close> piece from
  \<open>y = 0\<close> to the resting offset \<open>y = 18\<close> and locks it there, in one transition: the
  placement test succeeds at \<open>y = 1, ..., 18\<close> and fails at \<open>y = 19\<close>, so the loop ends
  with \<open>dropY = 18\<close>; the lower occupied shape row (the second of the three) lies on
  board row 19 and the empty third row of the matrix maps below the board. The state
  returned is the one a \<open>tick\<close> returns for the same block at \<open>y = 18\<close>: the same lock
  sequence.
\<close>

theorem scenario_D:
  "initialState KeyT k2 = Inr (scenarioD k2) \<and>
   board (scenarioD k2) = createEmptyBoard \<and>
   currentBlock (scenarioD k2) = \<lparr>tetromino = randomTetromino KeyT, x = 3, y = 0\<rparr> \<and>
   map (\<lambda>py. canPlaceTetromino createEmptyBoard (randomTetromino KeyT) 3 (int py)) [1..<20] =
     replicate 18 (Inr True) @ [Inr False] \<and>
   dropLoop createEmptyBoard (randomTetromino KeyT) 3 0 = Some (Inr 18) \<and>
   updateState k (scenarioD k2) Drop =
     Some (Inr \<lparr>board = boardWithBottom
                  [[Null, Null, Null, Null, Color ''purple'', Null, Null, Null, Null, Null],
                   [Null, Null, Null, Color ''purple'', Color ''purple'', Color ''purple'',
                    Null, Null, Null, Null]],
               currentBlock =
                 \<lparr>tetromino = randomTetromino k2,
                  x = (GRID_WIDTH - int (length (hd (shape (randomTetromino k2))))) div 2,
                  y = 0\<rparr>,
               nextTetromino = randomTetromino k, gameOver = False, score = 0\<rparr>) \<and>
   updateState k (scenarioD k2) Drop =
     updateState k ((scenarioD k2)\<lparr>currentBlock := (currentBlock (scenarioD k2))\<lparr>y := 18\<rparr>\<rparr>) Tick"
proof -
  have c: "map (\<lambda>py. canPlaceTetromino createEmptyBoard (randomTetromino KeyT) 3 (int py)) [1..<20] =
     replicate 18 (Inr True) @ [Inr False]"
    by code_simp
  have c19: "canPlaceTetromino createEmptyBoard (randomTetromino KeyT) 3 (18 + 1) = Inr False"
    by code_simp
  have d: "updateState k (scenarioD k2) Drop =
             Some (lockBlock k (scenarioD k2) \<lparr>tetromino = randomTetromino KeyT, x = 3, y = 18\<rparr>)"
    using dropLoop_T
    by (simp add: updateState_def scenarioD_def emptyBoardState_def Let_def)
  have t: "updateState k ((scenarioD k2)\<lparr>currentBlock := (currentBlock (scenarioD k2))\<lparr>y := 18\<rparr>\<rparr>) Tick =
             Some (lockBlock k (emptyBoardState \<lparr>tetromino = randomTetromino KeyT, x = 3, y = 18\<rparr>
                                  (randomTetromino k2))
                     \<lparr>tetromino = randomTetromino KeyT, x = 3, y = 18\<rparr>)"
    using c19
    by (simp add: updateState_def tickOrDown_def scenarioD_def emptyBoardState_def Let_def)
  from c d t dropLoop_T initialState_scenarioD [of k2]
    lock_T [of k "\<lparr>tetromino = randomTetromino KeyT, x = 3, y = 0\<rparr>" k2]
    lock_T [of k "\<lparr>tetromino = randomTetromino KeyT, x = 3, y = 18\<rparr>" k2]
  show ?thesis
    by (simp add: scenarioD_def emptyBoardState_def)
qed

theorem scenario_D_witness:
  "dropLoop createEmptyBoard (randomTetromino KeyT) 3 0 = Some (Inr 18) \<and>
   updateState KeyI (scenarioD KeyO) Drop =
     Some (Inr \<lparr>board = boardWithBottom
                  [[Null, Null, Null, Null, Color ''purple'', Null, Null, Null, Null, Null],
                   [Null, Null, Null, Color ''purple'', Color ''purple'', Color ''purple'',
                    Null, Null, Null, Null]],
               currentBlock = \<lparr>tetromino = randomTetromino KeyO, x = 4, y = 0\<rparr>,
               nextTetromino = randomTetromino KeyI, gameOver = False, score = 0\<rparr>)"
proof -
  have "(GRID_WIDTH - int (length (hd (shape (randomTetromino KeyO))))) div 2 = 4"
    by code_simp
  with scenario_D [of KeyO KeyI] show ?thesis by simp
qed

theorem scenario_D_counterexample:
  "GRID_HEIGHT - int (length (shape (randomTetromino KeyT))) = 17 \<and>
   canPlaceTetromino createEmptyBoard (randomTetromino KeyT) 3 (17 + 1) = Inr True \<and>
   dropLoop createEmptyBoard (randomTetromino KeyT) 3 0 = Some (Inr 18) \<and>
   dropLoop createEmptyBoard (randomTetromino KeyT) 3 0 \<noteq>
     Some (Inr (GRID_HEIGHT - int (length (shape (randomTetromino KeyT))))) \<and>
   updateState KeyI (scenarioD KeyO) Drop =
     Some (Inr \<lparr>board = boardWithBottom
                  [[Null, Null, Null, Null, Color ''purple'', Null, Null, Null, Null, Null],
                   [Null, Null, Null, Color ''purple'', Color ''purple'', Color ''purple'',
                    Null, Null, Null, Null]],
               currentBlock = \<lparr>tetromino = randomTetromino KeyO, x = 4, y = 0\<rparr>,
               nextTetromino = randomTetromino KeyI, gameOver = False, score = 0\<rparr>) \<and>
   updateState KeyI (scenarioD KeyO) Drop \<noteq>
     Some (lockBlock KeyI (scenarioD KeyO) ((currentBlock (scenarioD KeyO))\<lparr>y := 17\<rparr>))"
  by code_simp

end
